theory Spec2Isabelle
  imports Complex_Main "HOL-Library.Sublist"
begin

section \<open>Configuration\<close>

text \<open>
  The global \<^verbatim>\<open>CONFIG\<close> object built by \<^verbatim>\<open>initConfigSync\<close> in
  \<^verbatim>\<open>static/script.js\<close>. Durations are milliseconds; the two volume thresholds are
  JavaScript numbers in the range 0..1, modelled as reals. Only the fields read by the
  functions below are kept.
\<close>

record config =
  RECORDING_TIMEOUT :: int
  SILENCE_THRESHOLD :: real
  SILENCE_DURATION :: int
  VOICE_DETECTION_THRESHOLD :: real
  QUESTION_DELAY :: int
  VOICE_DETECTION_INTERVAL :: int

definition CONFIG :: config where
  "CONFIG = \<lparr> RECORDING_TIMEOUT = 10000, SILENCE_THRESHOLD = 1 / 10,
      SILENCE_DURATION = 1500, VOICE_DETECTION_THRESHOLD = 2 / 10,
      QUESTION_DELAY = 1000, VOICE_DETECTION_INTERVAL = 1 \<rparr>"

section \<open>The rolling audio buffer (class AudioBuffer)\<close>

text \<open>
  One entry of \<^verbatim>\<open>this.buffer\<close>: the copied channel data and the value of
  \<^verbatim>\<open>Date.now()\<close> when it was pushed. The sample data is never inspected, so its
  type is a parameter.
\<close>

record 'a item =
  data :: 'a
  timestamp :: int

record 'a AudioBuffer =
  bufferDuration :: int
  buffer :: "'a item list"
  bufIsRecording :: bool

text \<open>The constructor, with its default argument of 3000 ms.\<close>

definition newAudioBuffer :: "'a AudioBuffer" where
  "newAudioBuffer = \<lparr> bufferDuration = 3000, buffer = [], bufIsRecording = False \<rparr>"

text \<open>\<^verbatim>\<open>addToBuffer\<close>: push the chunk with the current time.\<close>

definition addToBuffer :: "int \<Rightarrow> 'a \<Rightarrow> 'a AudioBuffer \<Rightarrow> 'a AudioBuffer" where
  "addToBuffer now d ab = ab\<lparr> buffer := buffer ab @ [\<lparr> data = d, timestamp = now \<rparr>] \<rparr>"

text \<open>
  \<^verbatim>\<open>trimBuffer\<close>:
  \<^verbatim>\<open>cutoffTime = Date.now() - this.bufferDuration;
  this.buffer = this.buffer.filter(item => item.timestamp > cutoffTime)\<close>.
\<close>

definition trimBuffer :: "int \<Rightarrow> 'a AudioBuffer \<Rightarrow> 'a AudioBuffer" where
  "trimBuffer now ab =
     (let cutoffTime = now - bufferDuration ab
      in ab\<lparr> buffer := filter (\<lambda>i. timestamp i > cutoffTime) (buffer ab) \<rparr>)"

text \<open>
  \<^verbatim>\<open>getBufferedAudio\<close>:
  \<^verbatim>\<open>return this.buffer.filter(item => item.timestamp >= fromTimestamp)\<close>.
  \<^verbatim>\<open>Array.prototype.filter\<close> builds a new array, so the function is a read.
\<close>

definition getBufferedAudio :: "'a AudioBuffer \<Rightarrow> int \<Rightarrow> 'a item list" where
  "getBufferedAudio ab fromTimestamp = filter (\<lambda>i. timestamp i \<ge> fromTimestamp) (buffer ab)"

text \<open>
  The \<^verbatim>\<open>onaudioprocess\<close> callback: while the buffer is not in its recording state,
  every audio block is appended and the buffer is trimmed.
\<close>

definition onaudioprocess :: "int \<Rightarrow> 'a \<Rightarrow> 'a AudioBuffer \<Rightarrow> 'a AudioBuffer" where
  "onaudioprocess now d ab =
     (if \<not> bufIsRecording ab then trimBuffer now (addToBuffer now d ab) else ab)"

text \<open>
  \<^verbatim>\<open>AudioBuffer.startRecording(fromTimestamp = null)\<close>: sets the recording flag and
  returns the pre-roll. The argument is tested for truthiness, so both \<^verbatim>\<open>null\<close> and
  the number 0 give the empty pre-roll.
\<close>

definition truthyTime :: "int option \<Rightarrow> bool" where
  "truthyTime t = (case t of None \<Rightarrow> False | Some n \<Rightarrow> n \<noteq> 0)"

definition bufStartRecording :: "'a AudioBuffer \<Rightarrow> int option \<Rightarrow> 'a AudioBuffer \<times> 'a item list" where
  "bufStartRecording ab fromTimestamp =
     (let ab1 = ab\<lparr> bufIsRecording := True \<rparr>
      in if truthyTime fromTimestamp
         then (ab1, getBufferedAudio ab1 (the fromTimestamp))
         else (ab1, []))"

text \<open>\<^verbatim>\<open>AudioBuffer.stopRecording\<close>: clears the flag and returns a copy of the buffer.\<close>

definition bufStopRecording :: "'a AudioBuffer \<Rightarrow> 'a AudioBuffer \<times> 'a item list" where
  "bufStopRecording ab = (ab\<lparr> bufIsRecording := False \<rparr>, buffer ab)"

section \<open>Strings\<close>

text \<open>
  JavaScript strings are modelled as lists of 8-bit characters. \<^verbatim>\<open>String.prototype.trim\<close>
  removes leading and trailing white space and line terminators; in this range those are
  TAB, LF, VT, FF, CR, SPACE and NBSP.
\<close>

definition isWhiteSpace :: "char \<Rightarrow> bool" where
  "isWhiteSpace c = (c = CHR 0x09 \<or> c = CHR 0x0A \<or> c = CHR 0x0B \<or> c = CHR 0x0C
      \<or> c = CHR 0x0D \<or> c = CHR 0x20 \<or> c = CHR 0xA0)"

definition trim :: "string \<Rightarrow> string" where
  "trim s = rev (dropWhile isWhiteSpace (rev (dropWhile isWhiteSpace s)))"

text \<open>Truthiness of a string-or-null value: \<^verbatim>\<open>null\<close> and \<^verbatim>\<open>''\<close> are falsy.\<close>

definition truthyStr :: "string option \<Rightarrow> bool" where
  "truthyStr t = (case t of None \<Rightarrow> False | Some x \<Rightarrow> x \<noteq> [])"

text \<open>\<^verbatim>\<open>a || b\<close> on strings.\<close>

definition orElse :: "string option \<Rightarrow> string \<Rightarrow> string" where
  "orElse a b = (if truthyStr a then the a else b)"

section \<open>The speech player (class TTSService, static/tts\_service.js)\<close>

text \<open>
  What the service does to the outside: lifecycle callbacks, the synthesis request, and
  operations on Audio elements and object URLs. Audio elements are named by the number
  under which \<^verbatim>\<open>_playAudio\<close> created them; the object URL of an element carries the
  same number.
\<close>

datatype tts_effect =
    OnStart string
  | OnEnd
  | OnError
  | FetchSpeech string
  | SaveFile
  | AudioPlay nat
  | AudioPause nat
  | RevokeURL nat

text \<open>
  \<^verbatim>\<open>this.config\<close> and \<^verbatim>\<open>this.state\<close> of the service, together with the part of
  the browser it acts on: \<open>playing\<close> lists the Audio elements that are currently
  sounding, \<open>liveUrls\<close> the object URLs created and not yet revoked, \<open>nextAudio\<close> the
  number of the next element to be created, \<open>mobileDevice\<close> the value of
  \<^verbatim>\<open>_isMobileDevice()\<close>. \<open>ttsLog\<close> records the effects in order.
\<close>

record tts_state =
  enabled :: bool
  apiToken :: string
  saveAudioFiles :: bool
  currentAudio :: "nat option"
  isSpeaking :: bool
  audioQueue :: "string list"
  ttsIsProcessing :: bool
  audioUnlocked :: bool
  mobileDevice :: bool
  playing :: "nat list"
  liveUrls :: "nat list"
  nextAudio :: nat
  ttsLog :: "tts_effect list"

text \<open>
  The constructor. \<^verbatim>\<open>enabled: config.enabled !== true\<close> and
  \<^verbatim>\<open>saveAudioFiles: config.saveAudioFiles !== true\<close> are followed by the spread
  \<^verbatim>\<open>...config\<close>, which overwrites each of them when the key is given: an absent key
  yields \<^verbatim>\<open>true\<close>, a given key its value. The token is \<^verbatim>\<open>''\<close> when none is given.
\<close>

definition newTTSService :: "bool option \<Rightarrow> bool option \<Rightarrow> string \<Rightarrow> bool \<Rightarrow> tts_state" where
  "newTTSService cfgEnabled cfgSaveAudioFiles token mobile =
     \<lparr> enabled = (case cfgEnabled of None \<Rightarrow> True | Some b \<Rightarrow> b),
       apiToken = token,
       saveAudioFiles = (case cfgSaveAudioFiles of None \<Rightarrow> True | Some b \<Rightarrow> b),
       currentAudio = None, isSpeaking = False, audioQueue = [], ttsIsProcessing = False,
       audioUnlocked = False, mobileDevice = mobile, playing = [], liveUrls = [],
       nextAudio = 0, ttsLog = [] \<rparr>"

definition emit :: "tts_effect \<Rightarrow> tts_state \<Rightarrow> tts_state" where
  "emit e t = t\<lparr> ttsLog := ttsLog t @ [e] \<rparr>"

text \<open>
  \<^verbatim>\<open>stop()\<close>: pauses and forgets the current Audio element, if there is one, clears the
  speaking flag and the queue. It does not revoke the element's object URL.
\<close>

definition stop :: "tts_state \<Rightarrow> tts_state" where
  "stop t =
     (let t1 = (case currentAudio t of
                  Some a \<Rightarrow> (emit (AudioPause a) t)\<lparr> playing := removeAll a (playing t),
                                                     currentAudio := None \<rparr>
                | None \<Rightarrow> t)
      in t1\<lparr> isSpeaking := False, audioQueue := [] \<rparr>)"

text \<open>\<^verbatim>\<open>setEnabled(enabled)\<close>.\<close>

definition setEnabled :: "bool \<Rightarrow> tts_state \<Rightarrow> tts_state" where
  "setEnabled e t =
     (let t1 = t\<lparr> enabled := e \<rparr>
      in if \<not> e \<and> isSpeaking t1 then stop t1 else t1)"

text \<open>
  \<^verbatim>\<open>speak(text)\<close> is an async function. \<open>speak\<close> below is its synchronous prefix, up to
  the first \<^verbatim>\<open>await\<close> that suspends it; the value says how the call stands after it:
  resolved, raised (no token), waiting for \<^verbatim>\<open>unlockAudio\<close> (after which it goes on with
  \<open>speak_try\<close>), or waiting for the synthesis request (after which it goes on with
  \<open>speak_fetched\<close> or \<open>speak_failed\<close>).
\<close>

datatype speak_step =
    Resolved
  | Thrown
  | AwaitUnlock
  | AwaitFetch

text \<open>
  The body of the \<^verbatim>\<open>try\<close> block up to \<^verbatim>\<open>await this._callTTSAPI(text, options)\<close>:
  set the processing flag, fire \<^verbatim>\<open>onStart\<close>, \<^verbatim>\<open>stop()\<close>, send the request.
\<close>

definition speak_try :: "string \<Rightarrow> tts_state \<Rightarrow> speak_step \<times> tts_state" where
  "speak_try text t =
     (let t1 = t\<lparr> ttsIsProcessing := True \<rparr>;
          t2 = emit (OnStart text) t1;
          t3 = stop t2
      in (AwaitFetch, emit (FetchSpeech text) t3))"

definition speak :: "string option \<Rightarrow> tts_state \<Rightarrow> speak_step \<times> tts_state" where
  "speak text t =
     (if \<not> enabled t then (Resolved, t)
      else if \<not> truthyStr text \<or> \<not> truthyStr (Some (trim (the text))) then (Resolved, t)
      else if apiToken t = [] then (Thrown, t)
      else if mobileDevice t \<and> \<not> audioUnlocked t then (AwaitUnlock, t)
      else speak_try (the text) t)"

text \<open>
  \<^verbatim>\<open>_playAudio(audioBlob)\<close> up to \<^verbatim>\<open>audio.play()\<close>: an empty blob is rejected; otherwise
  a new object URL and Audio element are created, the element becomes
  \<^verbatim>\<open>state.currentAudio\<close>, the speaking flag is set and the element starts to play.
  The previous value of \<^verbatim>\<open>state.currentAudio\<close> is overwritten, not stopped.
\<close>

definition playAudio :: "nat \<Rightarrow> tts_state \<Rightarrow> nat option \<times> tts_state" where
  "playAudio blobSize t =
     (if blobSize = 0 then (None, t)
      else let a = nextAudio t;
               t1 = t\<lparr> nextAudio := Suc a, liveUrls := liveUrls t @ [a] \<rparr>;
               t2 = t1\<lparr> currentAudio := Some a, isSpeaking := True \<rparr>
           in (Some a, (emit (AudioPlay a) t2)\<lparr> playing := playing t2 @ [a] \<rparr>))"

text \<open>
  The continuation of \<^verbatim>\<open>speak\<close> after the synthesis request has answered with a blob
  of the given size: optionally save the file, then the first attempt of
  \<^verbatim>\<open>_playAudioWithRetry\<close>.
\<close>

definition speak_fetched :: "nat \<Rightarrow> tts_state \<Rightarrow> nat option \<times> tts_state" where
  "speak_fetched blobSize t =
     playAudio blobSize (if saveAudioFiles t then emit SaveFile t else t)"

text \<open>
  The continuation of \<^verbatim>\<open>speak\<close> when the synthesis request fails: the \<^verbatim>\<open>catch\<close> block
  fires \<^verbatim>\<open>onError\<close> and raises again, the \<^verbatim>\<open>finally\<close> block clears the processing flag.
\<close>

definition speak_failed :: "tts_state \<Rightarrow> tts_state" where
  "speak_failed t = (emit OnError t)\<lparr> ttsIsProcessing := False \<rparr>"

text \<open>
  The \<^verbatim>\<open>onended\<close> handler of element \<open>a\<close>, followed by the \<^verbatim>\<open>finally\<close> block of
  the \<^verbatim>\<open>speak\<close> call that was waiting for it.
\<close>

definition audio_onended :: "nat \<Rightarrow> tts_state \<Rightarrow> tts_state" where
  "audio_onended a t =
     (let t1 = t\<lparr> isSpeaking := False, currentAudio := None,
                   playing := removeAll a (playing t),
                   liveUrls := removeAll a (liveUrls t) \<rparr>;
          t2 = emit OnEnd (emit (RevokeURL a) t1)
      in t2\<lparr> ttsIsProcessing := False \<rparr>)"

section \<open>Global application state (static/script.js)\<close>

text \<open>The second argument of \<^verbatim>\<open>updateStatus\<close>.\<close>

datatype status = Loading | Ready | Listening | Recording | Processing | Speaking | Stopped

datatype role = User | Assistant

datatype timer = RecordingTimer | InterruptReset | StatusReset

text \<open>
  What the coordinator does to its collaborators (recorder, network, DOM, timers, speech
  player), in the order in which it does it. \<open>Called_startRecording\<close> and
  \<open>Called_stopRecording\<close> mark the entry of the two functions of that name.
\<close>

datatype effect =
    Called_startRecording
  | Called_stopRecording
  | RecorderStart
  | RecorderStop
  | ReaderCancel
  | UpdateStatus status
  | ShowError
  | AddMessage string role
  | UpdateMessage string
  | SetTimeout timer int
  | ClearTimeout timer
  | FetchTranscribe nat
  | FetchChat string
  | Speak string

text \<open>
  The global \<^verbatim>\<open>state\<close> object. Object references are kept as far as the code tests
  them: \<open>mediaRecorder\<close>, \<open>currentStreamReader\<close> and \<open>recordingTimer\<close> say whether the
  reference is non-null, \<open>ttsService\<close> and \<open>audioBuffer\<close> hold the object's state.
  \<open>recorderThrows\<close> says whether a call of \<^verbatim>\<open>mediaRecorder.start\<close> or
  \<^verbatim>\<open>mediaRecorder.stop\<close> raises. \<open>consecutiveVoiceFrames\<close> and
  \<open>consecutiveSilenceFrames\<close> are the two counters in the closure of
  \<^verbatim>\<open>startVoiceDetection\<close>. \<open>effects\<close> is the log of effects.
\<close>

record 'a app_state =
  isListening :: bool
  isRecording :: bool
  isProcessing :: bool
  mediaRecorder :: bool
  recorderThrows :: bool
  conversationId :: string
  recordingTimer :: bool
  lastVolume :: real
  ttsService :: "tts_state option"
  continuousMonitoring :: bool
  lastVoiceTime :: int
  audioBuffer :: "'a AudioBuffer option"
  voiceStartTime :: "int option"
  shouldInterrupt :: bool
  isInterrupted :: bool
  currentStreamReader :: bool
  interruptTimestamp :: int
  consecutiveVoiceFrames :: nat
  consecutiveSilenceFrames :: nat
  effects :: "effect list"

definition logEffect :: "effect \<Rightarrow> 'a app_state \<Rightarrow> 'a app_state" where
  "logEffect e s = s\<lparr> effects := effects s @ [e] \<rparr>"

text \<open>\<^verbatim>\<open>state.ttsService && state.ttsService.isSpeaking()\<close>.\<close>

definition ttsSpeaking :: "'a app_state \<Rightarrow> bool" where
  "ttsSpeaking s = (case ttsService s of None \<Rightarrow> False | Some t \<Rightarrow> isSpeaking t)"

text \<open>\<^verbatim>\<open>state.isInterrupted || state.shouldInterrupt\<close>.\<close>

definition interruptLatched :: "'a app_state \<Rightarrow> bool" where
  "interruptLatched s = (isInterrupted s \<or> shouldInterrupt s)"

section \<open>Recording (startRecording, stopRecording)\<close>

text \<open>
  \<^verbatim>\<open>startRecording()\<close>: nothing when already recording or without a recorder;
  otherwise fetch the pre-roll, set the flag, start the recorder and arm the
  \<^verbatim>\<open>CONFIG.RECORDING_TIMEOUT\<close> timer. The \<^verbatim>\<open>catch\<close> block resets the flag and
  \<^verbatim>\<open>voiceStartTime\<close>.
\<close>

definition startRecording :: "config \<Rightarrow> 'a app_state \<Rightarrow> 'a app_state" where
  "startRecording cfg s0 =
     (let s = logEffect Called_startRecording s0
      in if isRecording s \<or> \<not> mediaRecorder s then s
         else
           let s1 = (case audioBuffer s of
                       Some ab \<Rightarrow>
                         if truthyTime (voiceStartTime s)
                         then s\<lparr> audioBuffer := Some (fst (bufStartRecording ab (voiceStartTime s))) \<rparr>
                         else s
                     | None \<Rightarrow> s);
               s2 = s1\<lparr> isRecording := True \<rparr>
           in if recorderThrows s2
              then (logEffect ShowError s2)\<lparr> isRecording := False, voiceStartTime := None \<rparr>
              else
                let s3 = logEffect (UpdateStatus Recording) (logEffect RecorderStart s2)
                in (logEffect (SetTimeout RecordingTimer (RECORDING_TIMEOUT cfg)) s3)
                     \<lparr> recordingTimer := True \<rparr>)"

text \<open>
  \<^verbatim>\<open>stopRecording()\<close>: nothing when not recording; otherwise clear the flag, stop the
  recorder, clear the timeout timer and reset \<^verbatim>\<open>voiceStartTime\<close>. A raise of
  \<^verbatim>\<open>mediaRecorder.stop()\<close> lands in the \<^verbatim>\<open>catch\<close> block.
\<close>

definition stopRecording :: "'a app_state \<Rightarrow> 'a app_state" where
  "stopRecording s0 =
     (let s = logEffect Called_stopRecording s0
      in if \<not> isRecording s then s
         else
           let s1 = s\<lparr> isRecording := False \<rparr>;
               s2 = (case audioBuffer s1 of
                       Some ab \<Rightarrow> s1\<lparr> audioBuffer := Some (fst (bufStopRecording ab)) \<rparr>
                     | None \<Rightarrow> s1)
           in if \<not> mediaRecorder s2 \<or> recorderThrows s2
              then s2\<lparr> voiceStartTime := None \<rparr>
              else
                let s3 = logEffect (UpdateStatus Processing) (logEffect RecorderStop s2);
                    s4 = (if recordingTimer s3
                          then (logEffect (ClearTimeout RecordingTimer) s3)\<lparr> recordingTimer := False \<rparr>
                          else s3)
                in s4\<lparr> voiceStartTime := None \<rparr>)"

text \<open>
  The callback handed to \<^verbatim>\<open>setTimeout(..., CONFIG.RECORDING_TIMEOUT)\<close> in
  \<^verbatim>\<open>startRecording\<close>.
\<close>

definition recordingTimeout :: "'a app_state \<Rightarrow> 'a app_state" where
  "recordingTimeout s = (if isRecording s then stopRecording s else s)"

section \<open>Interruption (executeGlobalInterrupt)\<close>

definition executeGlobalInterrupt :: "'a app_state \<Rightarrow> 'a app_state" where
  "executeGlobalInterrupt s =
     (let s1 = s\<lparr> isInterrupted := True, shouldInterrupt := False \<rparr>;
          s2 = (if currentStreamReader s1
                then (logEffect ReaderCancel s1)\<lparr> currentStreamReader := False \<rparr>
                else s1);
          s3 = (if ttsSpeaking s2
                then s2\<lparr> ttsService := map_option stop (ttsService s2) \<rparr>
                else s2);
          s4 = s3\<lparr> isProcessing := False \<rparr>;
          s5 = logEffect (UpdateStatus Listening) s4
      in logEffect (SetTimeout InterruptReset 100) s5)"

text \<open>The callback of the 100 ms timer set by \<^verbatim>\<open>executeGlobalInterrupt\<close>.\<close>

definition interruptReset :: "config \<Rightarrow> 'a app_state \<Rightarrow> 'a app_state" where
  "interruptReset cfg s =
     (let s1 = s\<lparr> isInterrupted := False \<rparr>
      in if lastVolume s1 > VOICE_DETECTION_THRESHOLD cfg \<and> \<not> isRecording s1
         then startRecording cfg s1 else s1)"

section \<open>Voice activity detection (startVoiceDetection, checkVoiceLevel)\<close>

text \<open>
  \<^verbatim>\<open>VOICE_CONFIRM_FRAMES\<close> is the constant 3.
  \<^verbatim>\<open>SILENCE_CONFIRM_FRAMES = Math.ceil(CONFIG.QUESTION_DELAY / CONFIG.VOICE_DETECTION_INTERVAL)\<close>.
\<close>

definition VOICE_CONFIRM_FRAMES :: nat where
  "VOICE_CONFIRM_FRAMES = 3"

definition SILENCE_CONFIRM_FRAMES :: "config \<Rightarrow> int" where
  "SILENCE_CONFIRM_FRAMES cfg =
     \<lceil>real_of_int (QUESTION_DELAY cfg) / real_of_int (VOICE_DETECTION_INTERVAL cfg)\<rceil>"

text \<open>
  The test \<^verbatim>\<open>consecutiveSilenceFrames >= SILENCE_CONFIRM_FRAMES\<close>. With a detection
  interval of 0 the JavaScript quotient is \<^verbatim>\<open>Infinity\<close> or \<^verbatim>\<open>NaN\<close> (the test is
  false) or \<^verbatim>\<open>-Infinity\<close> (the test is true).
\<close>

definition silenceConfirmed :: "config \<Rightarrow> nat \<Rightarrow> bool" where
  "silenceConfirmed cfg n =
     (if VOICE_DETECTION_INTERVAL cfg = 0 then QUESTION_DELAY cfg < 0
      else int n \<ge> SILENCE_CONFIRM_FRAMES cfg)"

text \<open>
  The branch of \<^verbatim>\<open>checkVoiceLevel\<close> taken when
  \<^verbatim>\<open>volume > CONFIG.VOICE_DETECTION_THRESHOLD\<close>.
\<close>

definition voiceFrame :: "config \<Rightarrow> int \<Rightarrow> 'a app_state \<Rightarrow> 'a app_state" where
  "voiceFrame cfg now s =
     (let s1 = s\<lparr> consecutiveVoiceFrames := Suc (consecutiveVoiceFrames s),
                   consecutiveSilenceFrames := 0 \<rparr>;
          s2 = (if consecutiveVoiceFrames s1 = 1
                then
                  let a = (if \<not> truthyTime (voiceStartTime s1)
                           then s1\<lparr> voiceStartTime := Some now \<rparr> else s1)
                  in if isProcessing a \<or> ttsSpeaking a
                     then a\<lparr> shouldInterrupt := True, interruptTimestamp := now \<rparr>
                     else a
                else s1);
          s3 = (if consecutiveVoiceFrames s2 \<ge> VOICE_CONFIRM_FRAMES
                   \<and> \<not> isRecording s2 \<and> \<not> isProcessing s2
                then
                  let b = (if ttsSpeaking s2
                           then s2\<lparr> ttsService := map_option stop (ttsService s2) \<rparr>
                           else s2)
                  in startRecording cfg b
                else s2)
      in s3\<lparr> lastVoiceTime := now \<rparr>)"

text \<open>The \<^verbatim>\<open>else\<close> branch of \<^verbatim>\<open>checkVoiceLevel\<close>.\<close>

definition silenceFrame :: "config \<Rightarrow> 'a app_state \<Rightarrow> 'a app_state" where
  "silenceFrame cfg s =
     (let s1 = s\<lparr> consecutiveSilenceFrames := Suc (consecutiveSilenceFrames s),
                   consecutiveVoiceFrames := 0 \<rparr>;
          s2 = (if truthyTime (voiceStartTime s1) \<and> \<not> isRecording s1
                then s1\<lparr> voiceStartTime := None \<rparr> else s1)
      in if isRecording s2 \<and> silenceConfirmed cfg (consecutiveSilenceFrames s2)
         then (stopRecording s2)\<lparr> consecutiveSilenceFrames := 0 \<rparr>
         else s2)"

text \<open>
  One run of \<^verbatim>\<open>checkVoiceLevel\<close> at time \<open>now\<close> with the measured \<open>volume\<close>. A
  \<^verbatim>\<open>NaN\<close> volume (empty frequency array) fails every \<^verbatim>\<open>>\<close> test of the code and so
  behaves as any volume at or below the threshold.
\<close>

definition checkVoiceLevel :: "config \<Rightarrow> int \<Rightarrow> real \<Rightarrow> 'a app_state \<Rightarrow> 'a app_state" where
  "checkVoiceLevel cfg now volume s =
     (if \<not> continuousMonitoring s then s
      else
        let s1 = (if shouldInterrupt s \<and> (isProcessing s \<or> ttsSpeaking s)
                  then executeGlobalInterrupt s else s);
            s2 = (if volume > VOICE_DETECTION_THRESHOLD cfg
                  then voiceFrame cfg now s1
                  else silenceFrame cfg s1)
        in s2\<lparr> lastVolume := volume \<rparr>)"

text \<open>
  The detection loop over a sequence of (time, volume) samples. The result lists, tick by
  tick, the effects of that tick.
\<close>

fun detect :: "config \<Rightarrow> 'a app_state \<Rightarrow> (int \<times> real) list \<Rightarrow> effect list list" where
  "detect cfg s [] = []"
| "detect cfg s (x # xs) =
     (let s' = checkVoiceLevel cfg (fst x) (snd x) (s\<lparr> effects := [] \<rparr>)
      in effects s' # detect cfg s' xs)"

text \<open>The state after the loop has consumed the samples.\<close>

fun detectState :: "config \<Rightarrow> 'a app_state \<Rightarrow> (int \<times> real) list \<Rightarrow> 'a app_state" where
  "detectState cfg s [] = s"
| "detectState cfg s (x # xs) =
     detectState cfg (checkVoiceLevel cfg (fst x) (snd x) (s\<lparr> effects := [] \<rparr>)) xs"

section \<open>The chat stream (handleStreamResponse)\<close>

text \<open>
  \<^verbatim>\<open>chunk.split('\n')\<close>: the pieces between line feeds; a string without a line feed
  is one piece.
\<close>

fun splitLines :: "string \<Rightarrow> string list" where
  "splitLines [] = [[]]"
| "splitLines (c # cs) =
     (if c = CHR 0x0A then [] # splitLines cs
      else (case splitLines cs of
              l # ls \<Rightarrow> (c # l) # ls
            | [] \<Rightarrow> [[c]]))"

text \<open>
  The object that \<^verbatim>\<open>JSON.parse\<close> returns for one payload, reduced to the properties
  the handlers read; an absent property is \<open>None\<close>. \<^verbatim>\<open>JSON.parse\<close> itself belongs to
  the browser and is a parameter \<open>parse\<close> of the handlers: \<open>None\<close> stands for a payload
  on which \<^verbatim>\<open>JSON.parse\<close> or the first property access raises, so that control
  passes to the \<^verbatim>\<open>catch\<close> block of the line.
\<close>

record json =
  event :: "string option"
  conversation_id :: "string option"
  complete_answer :: "string option"
  answer :: "string option"
  final_answer :: "string option"
  error :: "string option"

text \<open>The local variables of \<^verbatim>\<open>handleStreamResponse\<close>.\<close>

record locals =
  completeAnswer :: string
  messageElement :: bool

subsection \<open>static/script.js\<close>

text \<open>
  The body of the \<^verbatim>\<open>try\<close> block for one parsed payload. \<open>speakOk\<close> says whether the
  awaited \<^verbatim>\<open>state.ttsService.speak(finalAnswer)\<close> fulfils; \<open>Speak\<close> records the call.
  On \<^verbatim>\<open>workflow_finished\<close> with a message element, a non-blank answer and a speech
  service, both interrupt flags are reset, the service is enabled and the answer is
  spoken.
\<close>

definition handleData :: "bool \<Rightarrow> json \<Rightarrow> 'a app_state \<times> locals \<Rightarrow> 'a app_state \<times> locals" where
  "handleData speakOk d sl =
     (let s = fst sl; l = snd sl in
      if event d = Some ''workflow_started'' then
        (logEffect (AddMessage [] Assistant)
           (s\<lparr> conversationId := orElse (conversation_id d) (conversationId s) \<rparr>),
         l\<lparr> messageElement := True \<rparr>)
      else if event d = Some ''message'' then
        (let l1 = l\<lparr> completeAnswer := orElse (complete_answer d) [] \<rparr>
         in (if messageElement l1 then logEffect (UpdateMessage (completeAnswer l1)) s else s, l1))
      else if event d = Some ''workflow_finished'' then
        (let finalAnswer = orElse (final_answer d) (completeAnswer l) in
         if messageElement l then
           (let s1 = logEffect (UpdateMessage finalAnswer) s in
            if trim finalAnswer \<noteq> [] \<and> ttsService s1 \<noteq> None then
              (let s2 = s1\<lparr> isInterrupted := False, shouldInterrupt := False \<rparr>;
                   s3 = s2\<lparr> ttsService := map_option (setEnabled True) (ttsService s2) \<rparr>;
                   s4 = logEffect (Speak finalAnswer) s3
               in if speakOk then (s4, l)
                  else if continuousMonitoring s4 then (logEffect (UpdateStatus Listening) s4, l)
                  else (s4, l))
            else if continuousMonitoring s1 then (logEffect (UpdateStatus Listening) s1, l)
            else (logEffect (UpdateStatus Ready) s1, l))
         else (s, l))
      else (s, l))"

text \<open>
  One line of a chunk: only lines that start with \<^verbatim>\<open>data: \<close> are looked at, and
  \<^verbatim>\<open>line.slice(6)\<close> goes to \<^verbatim>\<open>JSON.parse\<close>; a raise is caught and logged to the console.
\<close>

definition handleLine ::
  "(string \<Rightarrow> json option) \<Rightarrow> bool \<Rightarrow> string \<Rightarrow> 'a app_state \<times> locals \<Rightarrow> 'a app_state \<times> locals" where
  "handleLine parse speakOk line sl =
     (if prefix ''data: '' line
      then (case parse (drop 6 line) of
              None \<Rightarrow> sl
            | Some d \<Rightarrow> handleData speakOk d sl)
      else sl)"

text \<open>The \<^verbatim>\<open>for (const line of lines)\<close> loop; it has no \<^verbatim>\<open>break\<close>.\<close>

fun handleLines ::
  "(string \<Rightarrow> json option) \<Rightarrow> bool \<Rightarrow> string list \<Rightarrow> 'a app_state \<times> locals \<Rightarrow> 'a app_state \<times> locals" where
  "handleLines parse speakOk [] sl = sl"
| "handleLines parse speakOk (line # rest) sl =
     handleLines parse speakOk rest (handleLine parse speakOk line sl)"

text \<open>
  The \<^verbatim>\<open>while (true)\<close> loop over the chunks that \<^verbatim>\<open>reader.read()\<close> delivers; the
  interrupt test at the head of the loop only writes to the console. The loop ends when
  \<^verbatim>\<open>read\<close> reports \<^verbatim>\<open>done\<close>, or when it raises (\<open>readFails\<close>), in which case the
  \<^verbatim>\<open>catch\<close> block replaces the message by a notice unless the interrupted flag is set.
  \<open>NOTICE_INTERRUPTED\<close> stands for the (Chinese) text of that notice. The
  \<^verbatim>\<open>finally\<close> block drops the reader reference.
\<close>

definition NOTICE_INTERRUPTED :: string where
  "NOTICE_INTERRUPTED = ''(answer interrupted)''"

fun readLoop ::
  "(string \<Rightarrow> json option) \<Rightarrow> bool \<Rightarrow> string list \<Rightarrow> 'a app_state \<times> locals \<Rightarrow> 'a app_state \<times> locals" where
  "readLoop parse speakOk [] sl = sl"
| "readLoop parse speakOk (chunk # chunks) sl =
     readLoop parse speakOk chunks (handleLines parse speakOk (splitLines chunk) sl)"

definition handleStreamResponse ::
  "(string \<Rightarrow> json option) \<Rightarrow> bool \<Rightarrow> string list \<Rightarrow> bool \<Rightarrow> 'a app_state
     \<Rightarrow> 'a app_state" where
  "handleStreamResponse parse speakOk chunks readFails s =
     (let s0 = s\<lparr> currentStreamReader := True \<rparr>;
          sl = readLoop parse speakOk chunks
                 (s0, \<lparr> completeAnswer = [], messageElement = False \<rparr>);
          s1 = (if readFails \<and> messageElement (snd sl) \<and> \<not> isInterrupted (fst sl)
                then logEffect (UpdateMessage NOTICE_INTERRUPTED) (fst sl)
                else fst sl)
      in s1\<lparr> currentStreamReader := False \<rparr>)"

subsection \<open>The earlier variant of the handler (unnamed/part\_004)\<close>

text \<open>
  Here \<^verbatim>\<open>workflow_finished\<close> first tests the interrupt flags and leaves the
  \<^verbatim>\<open>for\<close> loop with \<^verbatim>\<open>break\<close> when one is set; the answer is spoken only when neither
  flag is set. The Boolean of the result says whether the loop was left.
\<close>

definition handleData_v4 ::
  "bool \<Rightarrow> json \<Rightarrow> 'a app_state \<times> locals \<Rightarrow> bool \<times> 'a app_state \<times> locals" where
  "handleData_v4 speakOk d sl =
     (let s = fst sl; l = snd sl in
      if event d = Some ''workflow_started'' then
        (False, logEffect (AddMessage [] Assistant)
           (s\<lparr> conversationId := orElse (conversation_id d) (conversationId s) \<rparr>),
         l\<lparr> messageElement := True \<rparr>)
      else if event d = Some ''message'' then
        (let l1 = l\<lparr> completeAnswer := orElse (complete_answer d) [] \<rparr>
         in (False, if messageElement l1 then logEffect (UpdateMessage (completeAnswer l1)) s else s, l1))
      else if event d = Some ''workflow_finished'' then
        (if interruptLatched s then (True, s, l)
         else
           let finalAnswer = orElse (final_answer d) (completeAnswer l) in
           if messageElement l then
             (let s1 = logEffect (UpdateMessage finalAnswer) s in
              if trim finalAnswer \<noteq> [] \<and> ttsService s1 \<noteq> None
                 \<and> \<not> isInterrupted s1 \<and> \<not> shouldInterrupt s1 then
                (let s2 = logEffect (Speak finalAnswer) s1
                 in if speakOk then (False, s2, l)
                    else if continuousMonitoring s2 \<and> \<not> isInterrupted s2
                    then (False, logEffect (UpdateStatus Listening) s2, l)
                    else (False, s2, l))
              else if continuousMonitoring s1 \<and> \<not> isInterrupted s1
              then (False, logEffect (UpdateStatus Listening) s1, l)
              else (False, logEffect (UpdateStatus Ready) s1, l))
           else (False, s, l))
      else (False, s, l))"

fun handleLines_v4 ::
  "(string \<Rightarrow> json option) \<Rightarrow> bool \<Rightarrow> string list \<Rightarrow> 'a app_state \<times> locals \<Rightarrow> 'a app_state \<times> locals" where
  "handleLines_v4 parse speakOk [] sl = sl"
| "handleLines_v4 parse speakOk (line # rest) sl =
     (if prefix ''data: '' line
      then (case parse (drop 6 line) of
              None \<Rightarrow> handleLines_v4 parse speakOk rest sl
            | Some d \<Rightarrow>
                (case handleData_v4 speakOk d sl of
                   (True, sl') \<Rightarrow> sl'
                 | (False, sl') \<Rightarrow> handleLines_v4 parse speakOk rest sl'))
      else handleLines_v4 parse speakOk rest sl)"

text \<open>
  The \<^verbatim>\<open>while\<close> loop of this variant leaves at its head when an interrupt flag is set,
  after marking the message as interrupted. \<open>MARK_INTERRUPTED\<close> stands for the
  (Chinese) suffix that the source appends to the answer.
\<close>

definition MARK_INTERRUPTED :: string where
  "MARK_INTERRUPTED = '' [interrupted]''"

fun readLoop_v4 ::
  "(string \<Rightarrow> json option) \<Rightarrow> bool \<Rightarrow> string list \<Rightarrow> 'a app_state \<times> locals \<Rightarrow> 'a app_state \<times> locals" where
  "readLoop_v4 parse speakOk [] sl =
     (if interruptLatched (fst sl) \<and> messageElement (snd sl)
      then (logEffect (UpdateMessage (completeAnswer (snd sl) @ MARK_INTERRUPTED)) (fst sl), snd sl)
      else sl)"
| "readLoop_v4 parse speakOk (chunk # chunks) sl =
     (if interruptLatched (fst sl)
      then (if messageElement (snd sl)
            then (logEffect (UpdateMessage (completeAnswer (snd sl) @ MARK_INTERRUPTED)) (fst sl), snd sl)
            else sl)
      else readLoop_v4 parse speakOk chunks (handleLines_v4 parse speakOk (splitLines chunk) sl))"

subsection \<open>The text chat page (unnamed/part\_000)\<close>

text \<open>
  The page's globals as far as the stream handler touches them, with the log of what it
  does to the page.
\<close>

datatype chat_status = Thinking | AnswerDone | ServiceFailed

datatype chat_effect =
    HideTypingIndicator
  | ShowConversationId string
  | SetStatus chat_status
  | AddAssistantMessage
  | AddErrorMessage string
  | UpdateContent string bool
  | UpdateMessageCount
  | ClearStatusLater

record chat_state =
  chatConversationId :: string
  messageCount :: nat
  chatLog :: "chat_effect list"

record chat_locals =
  assistantMessage :: bool
  chatCompleteAnswer :: string

definition chatEmit :: "chat_effect \<Rightarrow> chat_state \<Rightarrow> chat_state" where
  "chatEmit e g = g\<lparr> chatLog := chatLog g @ [e] \<rparr>"

text \<open>
  The handling of one parsed payload; the Boolean says whether the \<^verbatim>\<open>for\<close> loop is
  left (the \<^verbatim>\<open>error\<close> event ends it with \<^verbatim>\<open>break\<close>).
\<close>

definition chatData :: "json \<Rightarrow> chat_state \<times> chat_locals \<Rightarrow> bool \<times> chat_state \<times> chat_locals" where
  "chatData d gl =
     (let g = fst gl; l = snd gl in
      if event d = Some ''workflow_started'' then
        (let g1 = (chatEmit HideTypingIndicator g)
                     \<lparr> chatConversationId := orElse (conversation_id d) [] \<rparr>;
             g2 = chatEmit (ShowConversationId (chatConversationId g1)) g1
         in (False, chatEmit (SetStatus Thinking) g2, l))
      else if event d = Some ''message'' then
        (let gl1 = (if \<not> assistantMessage l
                    then (chatEmit AddAssistantMessage g, l\<lparr> assistantMessage := True \<rparr>)
                    else (g, l));
             l2 = (snd gl1)\<lparr> chatCompleteAnswer :=
                     orElse (complete_answer d) (orElse (answer d) []) \<rparr>
         in (False, chatEmit (UpdateContent (chatCompleteAnswer l2) False) (fst gl1), l2))
      else if event d = Some ''workflow_finished'' then
        (let g1 = (if assistantMessage l
                   then (let finalAnswer = orElse (final_answer d) (chatCompleteAnswer l);
                             a = chatEmit (UpdateContent finalAnswer True) g;
                             b = a\<lparr> messageCount := Suc (messageCount a) \<rparr>
                         in chatEmit UpdateMessageCount b)
                   else g)
         in (False, chatEmit ClearStatusLater (chatEmit (SetStatus AnswerDone) g1), l))
      else if event d = Some ''error'' then
        (let g1 = chatEmit HideTypingIndicator g;
             g2 = chatEmit (AddErrorMessage (orElse (error d) [])) g1
         in (True, chatEmit (SetStatus ServiceFailed) g2, l))
      else (False, g, l))"

text \<open>
  The \<^verbatim>\<open>for\<close> loop over the lines of one chunk:
  \<^verbatim>\<open>jsonData = line.slice(6).trim(); if (!jsonData || jsonData === '[DONE]') continue;\<close>
\<close>

fun chatLines ::
  "(string \<Rightarrow> json option) \<Rightarrow> string list \<Rightarrow> chat_state \<times> chat_locals \<Rightarrow> chat_state \<times> chat_locals" where
  "chatLines parse [] gl = gl"
| "chatLines parse (line # rest) gl =
     (if prefix ''data: '' line
      then (let jsonData = trim (drop 6 line) in
            if jsonData = [] \<or> jsonData = ''[DONE]'' then chatLines parse rest gl
            else (case parse jsonData of
                    None \<Rightarrow> chatLines parse rest gl
                  | Some d \<Rightarrow>
                      (case chatData d gl of
                         (True, gl') \<Rightarrow> gl'
                       | (False, gl') \<Rightarrow> chatLines parse rest gl')))
      else chatLines parse rest gl)"

fun chatReadLoop ::
  "(string \<Rightarrow> json option) \<Rightarrow> string list \<Rightarrow> chat_state \<times> chat_locals \<Rightarrow> chat_state \<times> chat_locals" where
  "chatReadLoop parse [] gl = gl"
| "chatReadLoop parse (chunk # chunks) gl =
     chatReadLoop parse chunks (chatLines parse (splitLines chunk) gl)"

section \<open>Transcription and the processing pipeline (static/script.js)\<close>

text \<open>
  How the request to \<^verbatim>\<open>/transcribe\<close> ends: \<^verbatim>\<open>fetch\<close> rejects, the response is not
  \<^verbatim>\<open>ok\<close>, or the body is the JSON object whose \<^verbatim>\<open>text\<close> property is given
  (\<open>None\<close> when absent).
\<close>

datatype stt_response =
    FetchRejected
  | NotOk nat
  | Body "string option"

datatype stt_error = NetworkError | STTApiError nat

text \<open>
  \<^verbatim>\<open>callSTTAPI(audioBlob)\<close> builds the form and calls \<^verbatim>\<open>fetch\<close> at once, whatever the
  size of the blob: \<open>callSTTAPI\<close> is the request, \<open>callSTTAPI_result\<close> the value or
  raise after the response. There is one request per call.
\<close>

definition callSTTAPI :: "nat \<Rightarrow> 'a app_state \<Rightarrow> 'a app_state" where
  "callSTTAPI blobSize s = logEffect (FetchTranscribe blobSize) s"

definition callSTTAPI_result :: "stt_response \<Rightarrow> stt_error + string" where
  "callSTTAPI_result r =
     (case r of
        FetchRejected \<Rightarrow> Inl NetworkError
      | NotOk st \<Rightarrow> Inl (STTApiError st)
      | Body t \<Rightarrow> Inr (orElse t []))"

text \<open>The \<^verbatim>\<open>finally\<close> block of \<^verbatim>\<open>processAudio\<close>.\<close>

definition processAudio_finally :: "'a app_state \<Rightarrow> 'a app_state" where
  "processAudio_finally s =
     (let s1 = s\<lparr> isProcessing := False \<rparr>
      in if interruptLatched s1 then executeGlobalInterrupt s1
         else if continuousMonitoring s1 then logEffect (SetTimeout StatusReset 1000) s1
         else s1)"

text \<open>
  \<^verbatim>\<open>processAudio\<close> up to \<^verbatim>\<open>await callSTTAPI(audioBlob)\<close>. The Boolean says whether the
  function is now waiting for the transcription (otherwise it has returned).
\<close>

definition processAudio :: "nat \<Rightarrow> 'a app_state \<Rightarrow> bool \<times> 'a app_state" where
  "processAudio blobSize s =
     (let s1 = logEffect (UpdateStatus Processing) (s\<lparr> isProcessing := True \<rparr>)
      in if interruptLatched s1 then (False, processAudio_finally s1)
         else (True, callSTTAPI blobSize s1))"

text \<open>
  \<^verbatim>\<open>callChatAPI(query)\<close> up to the response of \<^verbatim>\<open>fetch\<close>, and after it: \<open>None\<close> is
  a rejected or non-\<^verbatim>\<open>ok\<close> response, which the function's own \<^verbatim>\<open>catch\<close> turns into
  an error display and an apology message (\<open>APOLOGY\<close> stands for its Chinese text);
  otherwise the chunks of the stream are handled.
\<close>

definition callChatAPI :: "string \<Rightarrow> 'a app_state \<Rightarrow> 'a app_state" where
  "callChatAPI query s = logEffect (FetchChat query) (logEffect (UpdateStatus Processing) s)"

definition APOLOGY :: string where
  "APOLOGY = ''(apology)''"

definition callChatAPI_result ::
  "(string \<Rightarrow> json option) \<Rightarrow> bool \<Rightarrow> (string list \<times> bool) option \<Rightarrow> 'a app_state
     \<Rightarrow> 'a app_state" where
  "callChatAPI_result parse speakOk resp s =
     (case resp of
        None \<Rightarrow> logEffect (AddMessage APOLOGY Assistant) (logEffect ShowError s)
      | Some (chunks, readFails) \<Rightarrow> handleStreamResponse parse speakOk chunks readFails s)"

text \<open>
  The continuation of \<^verbatim>\<open>processAudio\<close> once \<^verbatim>\<open>callSTTAPI\<close> has settled, run on the
  state as it is at that moment. A non-blank transcript is shown and sent to the chat
  endpoint unless an interrupt flag is set; a blank one only sets the status line. The
  Boolean says whether the function is now waiting for the chat request.
\<close>

definition processAudio_transcribed :: "stt_response \<Rightarrow> 'a app_state \<Rightarrow> bool \<times> 'a app_state" where
  "processAudio_transcribed r s =
     (case callSTTAPI_result r of
        Inl e \<Rightarrow> (False, processAudio_finally (logEffect ShowError s))
      | Inr transcript \<Rightarrow>
          if trim transcript \<noteq> [] then
            (if interruptLatched s then (False, processAudio_finally s)
             else
               let s1 = logEffect (AddMessage transcript User) s
               in if \<not> isInterrupted s1 \<and> \<not> shouldInterrupt s1
                  then (True, callChatAPI transcript s1)
                  else (False, processAudio_finally s1))
          else
            (let s1 = logEffect (UpdateStatus Ready) s;
                 s2 = logEffect (SetTimeout StatusReset 2000) s1
             in (False, processAudio_finally s2)))"

text \<open>The rest of \<^verbatim>\<open>processAudio\<close> after the chat request has been handled.\<close>

definition processAudio_answered ::
  "(string \<Rightarrow> json option) \<Rightarrow> bool \<Rightarrow> (string list \<times> bool) option \<Rightarrow> 'a app_state
     \<Rightarrow> 'a app_state" where
  "processAudio_answered parse speakOk resp s =
     processAudio_finally (callChatAPI_result parse speakOk resp s)"

section \<open>Transcription on the text chat page (unnamed/part\_000, processAudio)\<close>

text \<open>
  \<^verbatim>\<open>String.prototype.includes\<close>.
\<close>

fun includesStr :: "string \<Rightarrow> string \<Rightarrow> bool" where
  "includesStr [] sub = (sub = [])"
| "includesStr (c # cs) sub = (prefix sub (c # cs) \<or> includesStr cs sub)"

text \<open>
  How one request of \<^verbatim>\<open>attemptTranscription\<close> ends: \<^verbatim>\<open>fetch\<close> or
  \<^verbatim>\<open>response.json()\<close> raises an error of the given name and message (the 30 s abort
  gives the name \<^verbatim>\<open>AbortError\<close>), the response is not \<^verbatim>\<open>ok\<close> (status and body text),
  or the body is the JSON object with the properties \<^verbatim>\<open>success\<close>, \<^verbatim>\<open>text\<close> and
  \<^verbatim>\<open>error\<close>. The input element that receives the text is taken to exist.
\<close>

datatype transcribe_response =
    Rejects string string
  | Status nat string
  | Answer bool "string option" "string option"

text \<open>
  The errors that \<^verbatim>\<open>attemptTranscription\<close> raises. The fixed messages of the source
  are Chinese text; the ones that carry text from outside keep that text.
\<close>

datatype transcribe_error =
    EmptyAudio
  | PayloadTooLarge
  | Timeout
  | FetchFailed string string
  | ServiceError nat string
  | RecognitionFailed "string option"
  | NoSpeech

text \<open>
  The retry test of the \<^verbatim>\<open>catch\<close> block looks for \<^verbatim>\<open>Failed to fetch\<close>,
  \<^verbatim>\<open>Network\<close> or \<^verbatim>\<open>timeout\<close> in the error message. The fixed Chinese messages
  contain none of them, so only text from outside can match.
\<close>

definition transientText :: "string \<Rightarrow> bool" where
  "transientText m =
     (includesStr m ''Failed to fetch'' \<or> includesStr m ''Network''
      \<or> includesStr m ''timeout'')"

definition retryable :: "transcribe_error \<Rightarrow> bool" where
  "retryable e =
     (case e of
        FetchFailed n m \<Rightarrow> transientText m
      | ServiceError st body \<Rightarrow> transientText body
      | RecognitionFailed (Some m) \<Rightarrow> m \<noteq> [] \<and> transientText m
      | _ \<Rightarrow> False)"

text \<open>
  The \<^verbatim>\<open>try\<close> block of one attempt, given the answer to its request if it makes one:
  the error it raises or the recognised text, and whether a request was sent.
\<close>

definition maxPayload :: nat where
  "maxPayload = 25 * 1024 * 1024"

definition attemptOnce :: "nat \<Rightarrow> transcribe_response \<Rightarrow> (transcribe_error + string) \<times> bool" where
  "attemptOnce blobSize r =
     (if blobSize = 0 then (Inl EmptyAudio, False)
      else if blobSize > maxPayload then (Inl PayloadTooLarge, False)
      else (case r of
              Rejects n m \<Rightarrow> (Inl (FetchFailed n m), True)
            | Status st body \<Rightarrow> (Inl (ServiceError st body), True)
            | Answer success text err \<Rightarrow>
                if success \<and> truthyStr text \<and> trim (the text) \<noteq> []
                then (Inr (trim (the text)), True)
                else if \<not> success then (Inl (RecognitionFailed err), True)
                else (Inl NoSpeech, True)))"

text \<open>
  \<^verbatim>\<open>attemptTranscription\<close> with its \<^verbatim>\<open>catch\<close> block: an \<^verbatim>\<open>AbortError\<close> is raised
  again as a timeout; a retryable error with \<^verbatim>\<open>retryCount < maxRetries\<close> (3) waits
  \<^verbatim>\<open>1000 * retryCount\<close> ms and attempts again. \<open>net\<close> gives the answer to the request
  number \<open>n\<close>; the result carries the number of requests sent and the waits in order.
\<close>

definition maxRetries :: nat where
  "maxRetries = 3"

definition isAbortError :: "transcribe_error \<Rightarrow> bool" where
  "isAbortError e = (case e of FetchFailed name m \<Rightarrow> name = ''AbortError'' | _ \<Rightarrow> False)"

function attemptTranscription ::
  "(nat \<Rightarrow> transcribe_response) \<Rightarrow> nat \<Rightarrow> nat \<Rightarrow> nat \<Rightarrow> int list
     \<Rightarrow> (transcribe_error + string) \<times> nat \<times> int list" where
  "attemptTranscription net blobSize retryCount n waits =
     (let r = attemptOnce blobSize (net n);
          n' = (if snd r then Suc n else n)
      in case fst r of
           Inr text \<Rightarrow> (Inr text, n', waits)
         | Inl e \<Rightarrow>
             if isAbortError e then (Inl Timeout, n', waits)
             else if retryCount < maxRetries \<and> retryable e
             then attemptTranscription net blobSize (Suc retryCount) n'
                    (waits @ [1000 * int (Suc retryCount)])
             else (Inl e, n', waits))"
  by pat_completeness auto
termination
  by (relation "measure (\<lambda>(net, blobSize, retryCount, n, waits). maxRetries - retryCount)") auto

declare attemptTranscription.simps [simp del]

section \<open>Reference states and the confirmation count\<close>

text \<open>The literal \<^verbatim>\<open>let state = { ... }\<close> of static/script.js.\<close>

definition initialState :: "'a app_state" where
  "initialState = \<lparr> isListening = False, isRecording = False, isProcessing = False,
      mediaRecorder = False, recorderThrows = False, conversationId = [],
      recordingTimer = False, lastVolume = 0, ttsService = None,
      continuousMonitoring = False, lastVoiceTime = 0, audioBuffer = None,
      voiceStartTime = None, shouldInterrupt = False, isInterrupted = False,
      currentStreamReader = False, interruptTimestamp = 0,
      consecutiveVoiceFrames = 0, consecutiveSilenceFrames = 0, effects = [] \<rparr>"

text \<open>
  The state once \<^verbatim>\<open>initializeAudio\<close> has created the recorder and the buffer and
  \<^verbatim>\<open>startContinuousMonitoring\<close> has switched monitoring on.
\<close>

definition listeningState :: "unit app_state" where
  "listeningState = initialState\<lparr> mediaRecorder := True, audioBuffer := Some newAudioBuffer,
      continuousMonitoring := True, isListening := True \<rparr>"

text \<open>
  A speech service as \<^verbatim>\<open>initializeTTS\<close> creates it on a desktop browser, with a token
  configured, and the coordinator state while an answer is being streamed.
\<close>

definition ttsReady :: tts_state where
  "ttsReady = newTTSService (Some True) None ''token'' False"

definition answeringState :: "unit app_state" where
  "answeringState = listeningState\<lparr> isProcessing := True, ttsService := Some ttsReady,
      currentStreamReader := True \<rparr>"

text \<open>The text chat page before a stream starts.\<close>

definition chatStart :: "chat_state \<times> chat_locals" where
  "chatStart = (\<lparr> chatConversationId = [], messageCount = 0, chatLog = [] \<rparr>,
                \<lparr> assistantMessage = False, chatCompleteAnswer = [] \<rparr>)"

text \<open>Two payloads of the chat stream as \<^verbatim>\<open>JSON.parse\<close> returns them.\<close>

definition messageHi :: json where
  "messageHi = \<lparr> event = Some ''message'', conversation_id = None,
      complete_answer = Some ''Hi'', answer = None, final_answer = None, error = None \<rparr>"

definition finishedHi :: json where
  "finishedHi = \<lparr> event = Some ''workflow_finished'', conversation_id = None,
      complete_answer = None, answer = None, final_answer = Some ''Hi'', error = None \<rparr>"

text \<open>
  The value that the test \<^verbatim>\<open>consecutiveVoiceFrames >= VOICE_CONFIRM_FRAMES\<close> takes along
  a sample sequence, started with the counter at \<open>c\<close>: whether some tick brings the
  counter to 3. It is the loop invariant used for the detection loop.
\<close>

fun confirms :: "real \<Rightarrow> nat \<Rightarrow> (int \<times> real) list \<Rightarrow> bool" where
  "confirms thr c [] = False"
| "confirms thr c (x # xs) =
     (if snd x > thr then (Suc c \<ge> 3 \<or> confirms thr (Suc c) xs) else confirms thr 0 xs)"

section \<open>Properties of the rolling audio buffer\<close>

lemma sorted_map_filter: "sorted (map f xs) \<Longrightarrow> sorted (map f (filter P xs))"
  by (induction xs) auto

text \<open>
  C6, as the claim states it, is false at the boundary: an entry whose timestamp equals
  \<open>now - bufferDuration\<close> is not older than the cutoff, yet \<open>trimBuffer\<close> drops it.
\<close>

theorem C6_counterexample:
  "\<not> ((7000::int) < 10000 - 3000) \<and>
   buffer (trimBuffer 10000
     \<lparr> bufferDuration = 3000, buffer = [\<lparr> data = (), timestamp = 7000 \<rparr>],
       bufIsRecording = False \<rparr>) = []"
  by (simp add: trimBuffer_def)

text \<open>
  C6, amended: \<open>trimBuffer\<close> keeps, in buffer order, exactly the entries with
  \<open>timestamp > now - bufferDuration\<close> (an entry at the cutoff is dropped);
  \<open>getBufferedAudio\<close> returns, in buffer order, exactly the entries of the buffer with
  \<open>timestamp \<ge> t\<close>; reading the pre-roll through \<open>bufStartRecording\<close> leaves the buffer
  contents as they were; on a buffer trimmed at \<open>now\<close> every returned chunk is younger
  than \<open>bufferDuration\<close>, no retained chunk with \<open>timestamp \<ge> t\<close> is missing, and
  the result is in temporal order when the buffer is.
\<close>

theorem C6_buffer_trim_and_since:
  "buffer (trimBuffer now ab) = filter (\<lambda>i. \<not> timestamp i \<le> now - bufferDuration ab) (buffer ab)
   \<and> getBufferedAudio ab t = filter (\<lambda>i. t \<le> timestamp i) (buffer ab)
   \<and> buffer (fst (bufStartRecording ab ft)) = buffer ab
   \<and> getBufferedAudio (trimBuffer now ab) t =
       filter (\<lambda>i. now - bufferDuration ab < timestamp i \<and> t \<le> timestamp i) (buffer ab)
   \<and> (\<forall>i \<in> set (getBufferedAudio (trimBuffer now ab) t).
         t \<le> timestamp i \<and> now - timestamp i < bufferDuration ab)
   \<and> (sorted (map timestamp (buffer ab)) \<longrightarrow>
         sorted (map timestamp (getBufferedAudio (trimBuffer now ab) t)))"
proof -
  have a: "buffer (trimBuffer now ab) =
      filter (\<lambda>i. \<not> timestamp i \<le> now - bufferDuration ab) (buffer ab)"
    by (simp add: trimBuffer_def not_le)
  have b: "getBufferedAudio ab t = filter (\<lambda>i. t \<le> timestamp i) (buffer ab)"
    by (simp add: getBufferedAudio_def)
  have c: "buffer (fst (bufStartRecording ab ft)) = buffer ab"
    by (simp add: bufStartRecording_def Let_def)
  have eq: "getBufferedAudio (trimBuffer now ab) t =
      filter (\<lambda>i. now - bufferDuration ab < timestamp i \<and> t \<le> timestamp i) (buffer ab)"
    by (simp add: getBufferedAudio_def trimBuffer_def)
  have d: "\<forall>i \<in> set (getBufferedAudio (trimBuffer now ab) t).
      t \<le> timestamp i \<and> now - timestamp i < bufferDuration ab"
    unfolding eq by auto
  have e: "sorted (map timestamp (buffer ab)) \<longrightarrow>
      sorted (map timestamp (getBufferedAudio (trimBuffer now ab) t))"
    unfolding eq by (simp add: sorted_map_filter)
  from a b c eq d e show ?thesis by blast
qed

theorem C6_witness:
  "getBufferedAudio (trimBuffer 10000
     \<lparr> bufferDuration = 3000,
       buffer = [\<lparr> data = (), timestamp = 7000 \<rparr>, \<lparr> data = (), timestamp = 7001 \<rparr>,
                 \<lparr> data = (), timestamp = 9000 \<rparr>],
       bufIsRecording = False \<rparr>) 8000 = [\<lparr> data = (), timestamp = 9000 \<rparr>]
   \<and> sorted (map timestamp (getBufferedAudio (trimBuffer 10000
     \<lparr> bufferDuration = 3000,
       buffer = [\<lparr> data = (), timestamp = 7000 \<rparr>, \<lparr> data = (), timestamp = 7001 \<rparr>,
                 \<lparr> data = (), timestamp = 9000 \<rparr>],
       bufIsRecording = False \<rparr>) 8000))"
  using C6_buffer_trim_and_since [where now = 10000 and t = 8000 and ft = None and ab =
     "\<lparr> bufferDuration = 3000,
       buffer = [\<lparr> data = (), timestamp = 7000 \<rparr>, \<lparr> data = (), timestamp = 7001 \<rparr>,
                 \<lparr> data = (), timestamp = 9000 \<rparr>],
       bufIsRecording = False \<rparr>"]
  by simp

section \<open>Properties of the detection loop\<close>

lemma effects_logEffect [simp]: "effects (logEffect e s) = effects s @ [e]"
  by (simp add: logEffect_def)

lemma logEffect_fields [simp]:
  "isRecording (logEffect e s) = isRecording s"
  "isProcessing (logEffect e s) = isProcessing s"
  "continuousMonitoring (logEffect e s) = continuousMonitoring s"
  "consecutiveVoiceFrames (logEffect e s) = consecutiveVoiceFrames s"
  "consecutiveSilenceFrames (logEffect e s) = consecutiveSilenceFrames s"
  "mediaRecorder (logEffect e s) = mediaRecorder s"
  "recorderThrows (logEffect e s) = recorderThrows s"
  "audioBuffer (logEffect e s) = audioBuffer s"
  "voiceStartTime (logEffect e s) = voiceStartTime s"
  "recordingTimer (logEffect e s) = recordingTimer s"
  "ttsService (logEffect e s) = ttsService s"
  "shouldInterrupt (logEffect e s) = shouldInterrupt s"
  "isInterrupted (logEffect e s) = isInterrupted s"
  "currentStreamReader (logEffect e s) = currentStreamReader s"
  by (simp_all add: logEffect_def)

lemma ttsSpeaking_simps [simp]:
  "ttsSpeaking (logEffect e s) = ttsSpeaking s"
  by (simp add: ttsSpeaking_def)

lemma egi_fields:
  "isRecording (executeGlobalInterrupt s) = isRecording s"
  "isProcessing (executeGlobalInterrupt s) = False"
  "continuousMonitoring (executeGlobalInterrupt s) = continuousMonitoring s"
  "consecutiveVoiceFrames (executeGlobalInterrupt s) = consecutiveVoiceFrames s"
  "consecutiveSilenceFrames (executeGlobalInterrupt s) = consecutiveSilenceFrames s"
  "Called_startRecording \<in> set (effects (executeGlobalInterrupt s)) = (Called_startRecording \<in> set (effects s))"
  "Called_stopRecording \<in> set (effects (executeGlobalInterrupt s)) = (Called_stopRecording \<in> set (effects s))"
  by (simp_all add: executeGlobalInterrupt_def Let_def)

lemma startRecording_fields:
  "isProcessing (startRecording cfg s) = isProcessing s"
  "continuousMonitoring (startRecording cfg s) = continuousMonitoring s"
  "consecutiveVoiceFrames (startRecording cfg s) = consecutiveVoiceFrames s"
  "consecutiveSilenceFrames (startRecording cfg s) = consecutiveSilenceFrames s"
  "Called_startRecording \<in> set (effects (startRecording cfg s))"
  "Called_stopRecording \<in> set (effects (startRecording cfg s)) = (Called_stopRecording \<in> set (effects s))"
  by (simp_all add: startRecording_def Let_def split: option.splits)

lemma stopRecording_fields:
  "isProcessing (stopRecording s) = isProcessing s"
  "isRecording (stopRecording s) = False"
  "continuousMonitoring (stopRecording s) = continuousMonitoring s"
  "consecutiveVoiceFrames (stopRecording s) = consecutiveVoiceFrames s"
  "consecutiveSilenceFrames (stopRecording s) = consecutiveSilenceFrames s"
  "Called_startRecording \<in> set (effects (stopRecording s)) = (Called_startRecording \<in> set (effects s))"
  "Called_stopRecording \<in> set (effects (stopRecording s))"
  by (simp_all add: stopRecording_def Let_def split: option.splits)

lemma voiceFrame_fields:
  "continuousMonitoring (voiceFrame cfg now s) = continuousMonitoring s"
  "consecutiveVoiceFrames (voiceFrame cfg now s) = Suc (consecutiveVoiceFrames s)"
  "consecutiveSilenceFrames (voiceFrame cfg now s) = 0"
  "isProcessing (voiceFrame cfg now s) = isProcessing s"
  "Called_stopRecording \<in> set (effects (voiceFrame cfg now s)) = (Called_stopRecording \<in> set (effects s))"
  by (simp_all add: voiceFrame_def Let_def startRecording_fields)

lemma voiceFrame_start:
  "Called_startRecording \<in> set (effects (voiceFrame cfg now s)) =
     (Called_startRecording \<in> set (effects s) \<or>
      (consecutiveVoiceFrames s \<ge> 2 \<and> \<not> isRecording s \<and> \<not> isProcessing s))"
  by (auto simp add: voiceFrame_def Let_def startRecording_fields VOICE_CONFIRM_FRAMES_def)

lemma voiceFrame_idle:
  "\<not> isRecording s \<Longrightarrow> Called_startRecording \<notin> set (effects (voiceFrame cfg now s)) \<Longrightarrow>
   \<not> isRecording (voiceFrame cfg now s)"
  by (auto simp add: voiceFrame_def Let_def startRecording_fields VOICE_CONFIRM_FRAMES_def
      split: if_splits)

lemma voiceFrame_keeps_recording:
  "isRecording s \<Longrightarrow> isRecording (voiceFrame cfg now s)"
  by (simp add: voiceFrame_def Let_def)

lemma silenceFrame_fields:
  "continuousMonitoring (silenceFrame cfg s) = continuousMonitoring s"
  "consecutiveVoiceFrames (silenceFrame cfg s) = 0"
  "isProcessing (silenceFrame cfg s) = isProcessing s"
  "Called_startRecording \<in> set (effects (silenceFrame cfg s)) = (Called_startRecording \<in> set (effects s))"
  "\<not> isRecording s \<Longrightarrow> \<not> isRecording (silenceFrame cfg s)"
  by (simp_all add: silenceFrame_def Let_def stopRecording_fields)


lemma tick_counters:
  "continuousMonitoring s \<Longrightarrow>
   continuousMonitoring (checkVoiceLevel cfg now v s) \<and>
   consecutiveVoiceFrames (checkVoiceLevel cfg now v s) =
     (if v > VOICE_DETECTION_THRESHOLD cfg then Suc (consecutiveVoiceFrames s) else 0)"
  by (simp add: checkVoiceLevel_def Let_def voiceFrame_fields silenceFrame_fields egi_fields)

lemma tick_start_iff:
  "continuousMonitoring s \<Longrightarrow> effects s = [] \<Longrightarrow> \<not> isRecording s \<Longrightarrow> \<not> isProcessing s \<Longrightarrow>
   (Called_startRecording \<in> set (effects (checkVoiceLevel cfg now v s))) =
     (v > VOICE_DETECTION_THRESHOLD cfg \<and> consecutiveVoiceFrames s \<ge> 2)"
  by (simp add: checkVoiceLevel_def Let_def voiceFrame_start silenceFrame_fields egi_fields)

lemma tick_start_only:
  "continuousMonitoring s \<Longrightarrow> effects s = [] \<Longrightarrow>
   Called_startRecording \<in> set (effects (checkVoiceLevel cfg now v s)) \<Longrightarrow>
     v > VOICE_DETECTION_THRESHOLD cfg \<and> consecutiveVoiceFrames s \<ge> 2"
  by (simp add: checkVoiceLevel_def Let_def voiceFrame_start silenceFrame_fields egi_fields
      split: if_splits)

lemma tick_idle:
  assumes "\<not> isRecording s" "\<not> isProcessing s"
    and "Called_startRecording \<notin> set (effects (checkVoiceLevel cfg now v s))"
  shows "\<not> isRecording (checkVoiceLevel cfg now v s) \<and> \<not> isProcessing (checkVoiceLevel cfg now v s)"
proof (cases "continuousMonitoring s")
  case False
  with assms show ?thesis by (simp add: checkVoiceLevel_def)
next
  case True
  define s1 where "s1 = (if shouldInterrupt s \<and> (isProcessing s \<or> ttsSpeaking s)
                  then executeGlobalInterrupt s else s)"
  have s1: "\<not> isRecording s1" "\<not> isProcessing s1"
    using assms by (simp_all add: s1_def egi_fields)
  show ?thesis
  proof (cases "v > VOICE_DETECTION_THRESHOLD cfg")
    case v: True
    have eq: "checkVoiceLevel cfg now v s = (voiceFrame cfg now s1)\<lparr> lastVolume := v \<rparr>"
      using True v by (simp add: checkVoiceLevel_def s1_def)
    from assms(3) have "Called_startRecording \<notin> set (effects (voiceFrame cfg now s1))"
      by (simp add: eq)
    with s1 show ?thesis by (simp add: eq voiceFrame_idle voiceFrame_fields)
  next
    case v: False
    have eq: "checkVoiceLevel cfg now v s = (silenceFrame cfg s1)\<lparr> lastVolume := v \<rparr>"
      using True v by (simp add: checkVoiceLevel_def s1_def)
    with s1 show ?thesis by (simp add: eq silenceFrame_fields)
  qed
qed

lemma reset_fields [simp]:
  "continuousMonitoring (s\<lparr> effects := [] \<rparr>) = continuousMonitoring s"
  "isRecording (s\<lparr> effects := [] \<rparr>) = isRecording s"
  "isProcessing (s\<lparr> effects := [] \<rparr>) = isProcessing s"
  "consecutiveVoiceFrames (s\<lparr> effects := [] \<rparr>) = consecutiveVoiceFrames s"
  by simp_all

lemma detect_confirms:
  "continuousMonitoring s \<Longrightarrow> \<not> isRecording s \<Longrightarrow> \<not> isProcessing s \<Longrightarrow>
   (\<exists>tr \<in> set (detect cfg s xs). Called_startRecording \<in> set tr) =
     confirms (VOICE_DETECTION_THRESHOLD cfg) (consecutiveVoiceFrames s) xs"
proof (induction xs arbitrary: s)
  case Nil
  then show ?case by simp
next
  case (Cons x xs)
  let ?s0 = "s\<lparr> effects := [] \<rparr>"
  let ?s' = "checkVoiceLevel cfg (fst x) (snd x) ?s0"
  have mon: "continuousMonitoring ?s0" and e: "effects ?s0 = []"
    and idle: "\<not> isRecording ?s0" "\<not> isProcessing ?s0"
    using Cons.prems by simp_all
  have cnt: "continuousMonitoring ?s'"
    "consecutiveVoiceFrames ?s' =
       (if snd x > VOICE_DETECTION_THRESHOLD cfg then Suc (consecutiveVoiceFrames s) else 0)"
    using tick_counters [OF mon, of cfg "fst x" "snd x"] by simp_all
  have st: "(Called_startRecording \<in> set (effects ?s')) =
      (snd x > VOICE_DETECTION_THRESHOLD cfg \<and> consecutiveVoiceFrames s \<ge> 2)"
    using tick_start_iff [OF mon e idle, of cfg "fst x" "snd x"] by simp
  show ?case
  proof (cases "Called_startRecording \<in> set (effects ?s')")
    case True
    with st show ?thesis by (auto simp add: Let_def)
  next
    case False
    from tick_idle [OF idle False] have idle': "\<not> isRecording ?s'" "\<not> isProcessing ?s'"
      by simp_all
    have ih: "(\<exists>tr \<in> set (detect cfg ?s' xs). Called_startRecording \<in> set tr) =
        confirms (VOICE_DETECTION_THRESHOLD cfg) (consecutiveVoiceFrames ?s') xs"
      by (rule Cons.IH [OF cnt(1) idle'])
    from False st have nst: "\<not> (snd x > VOICE_DETECTION_THRESHOLD cfg \<and> consecutiveVoiceFrames s \<ge> 2)"
      by simp
    show ?thesis
      using False ih nst cnt(2) by (auto simp add: Let_def)
  qed
qed

lemma triple_confirms:
  "thr < snd a \<Longrightarrow> thr < snd b \<Longrightarrow> thr < snd c \<Longrightarrow> confirms thr k (ys @ a # b # c # zs)"
  by (induction ys arbitrary: k) auto

lemma confirms_triple:
  "confirms thr k vs \<Longrightarrow>
     (2 \<le> k \<and> (\<exists>a zs. vs = a # zs \<and> thr < snd a))
     \<or> (1 \<le> k \<and> (\<exists>a b zs. vs = a # b # zs \<and> thr < snd a \<and> thr < snd b))
     \<or> (\<exists>ys a b c zs. vs = ys @ a # b # c # zs \<and> thr < snd a \<and> thr < snd b \<and> thr < snd c)"
proof (induction vs arbitrary: k)
  case Nil
  then show ?case by simp
next
  case (Cons v vs)
  show ?case
  proof (cases "thr < snd v")
    case False
    with Cons.prems have "confirms thr 0 vs" by simp
    from Cons.IH [OF this] obtain ys a b c zs where
      "vs = ys @ a # b # c # zs" "thr < snd a" "thr < snd b" "thr < snd c" by auto
    then have "v # vs = (v # ys) @ a # b # c # zs \<and> thr < snd a \<and> thr < snd b \<and> thr < snd c"
      by simp
    then show ?thesis by blast
  next
    case True
    show ?thesis
    proof (cases "2 \<le> k")
      case True
      with \<open>thr < snd v\<close> show ?thesis by simp
    next
      case False
      with Cons.prems True have "confirms thr (Suc k) vs" by simp
      from Cons.IH [OF this] consider
          (one) a zs where "2 \<le> Suc k" "vs = a # zs" "thr < snd a"
        | (two) a b zs where "vs = a # b # zs" "thr < snd a" "thr < snd b"
        | (three) ys a b c zs where "vs = ys @ a # b # c # zs" "thr < snd a" "thr < snd b"
            "thr < snd c"
        by blast
      then show ?thesis
      proof cases
        case one
        with True show ?thesis by simp
      next
        case two
        with True have "v # vs = [] @ v # a # b # zs \<and> thr < snd v \<and> thr < snd a \<and> thr < snd b"
          by simp
        then show ?thesis by blast
      next
        case three
        then have "v # vs = (v # ys) @ a # b # c # zs \<and> thr < snd a \<and> thr < snd b \<and> thr < snd c"
          by simp
        then show ?thesis by blast
      qed
    qed
  qed
qed

lemma confirms_0_iff:
  "confirms thr 0 vs =
     (\<exists>ys a b c zs. vs = ys @ a # b # c # zs \<and> thr < snd a \<and> thr < snd b \<and> thr < snd c)"
  using confirms_triple [of thr 0 vs] triple_confirms [of thr _ _ _ 0] by auto

lemma silenceFrame_reset:
  "\<not> isRecording s \<Longrightarrow> \<not> truthyTime (voiceStartTime (silenceFrame cfg s))"
  by (simp add: silenceFrame_def Let_def truthyTime_def)

lemma tick_silence_reset:
  assumes "continuousMonitoring s" "\<not> isRecording s" "\<not> v > VOICE_DETECTION_THRESHOLD cfg"
  shows "consecutiveVoiceFrames (checkVoiceLevel cfg now v s) = 0
     \<and> \<not> truthyTime (voiceStartTime (checkVoiceLevel cfg now v s))"
  using assms
  by (simp add: checkVoiceLevel_def Let_def silenceFrame_fields silenceFrame_reset egi_fields)

lemma detect_append:
  "detect cfg s (xs @ ys) = detect cfg s xs @ detect cfg (detectState cfg s xs) ys"
  by (induction xs arbitrary: s) (simp_all add: Let_def)

lemma length_detect: "length (detect cfg s xs) = length xs"
  by (induction xs arbitrary: s) (simp_all add: Let_def)

lemma detectState_snoc:
  "detectState cfg s (xs @ [x]) =
     checkVoiceLevel cfg (fst x) (snd x) ((detectState cfg s xs)\<lparr> effects := [] \<rparr>)"
  by (induction xs arbitrary: s) simp_all

lemma detectState_monitoring:
  "continuousMonitoring s \<Longrightarrow> continuousMonitoring (detectState cfg s xs)"
proof (induction xs arbitrary: s)
  case Nil
  then show ?case by simp
next
  case (Cons x xs)
  have "continuousMonitoring (s\<lparr> effects := [] \<rparr>)" using Cons.prems by simp
  from tick_counters [OF this, of cfg "fst x" "snd x"]
  have "continuousMonitoring (checkVoiceLevel cfg (fst x) (snd x) (s\<lparr> effects := [] \<rparr>))"
    by simp
  from Cons.IH [OF this] show ?case by simp
qed

lemma counter_snoc:
  assumes "continuousMonitoring s"
  shows "consecutiveVoiceFrames (detectState cfg s (xs @ [x])) =
     (if snd x > VOICE_DETECTION_THRESHOLD cfg
      then Suc (consecutiveVoiceFrames (detectState cfg s xs)) else 0)"
proof -
  have "continuousMonitoring ((detectState cfg s xs)\<lparr> effects := [] \<rparr>)"
    using detectState_monitoring [OF assms, of cfg xs] by simp
  from tick_counters [OF this, of cfg "fst x" "snd x"] show ?thesis
    by (simp add: detectState_snoc)
qed

lemma counter_trailing:
  assumes "continuousMonitoring s" "consecutiveVoiceFrames s = 0"
    and "2 \<le> consecutiveVoiceFrames (detectState cfg s xs)"
  shows "\<exists>p a b. xs = p @ [a, b] \<and> snd a > VOICE_DETECTION_THRESHOLD cfg
            \<and> snd b > VOICE_DETECTION_THRESHOLD cfg"
proof (cases xs rule: rev_cases)
  case Nil
  with assms show ?thesis by simp
next
  case (snoc ys b)
  with assms(3) counter_snoc [OF assms(1), of cfg ys b]
  have b: "snd b > VOICE_DETECTION_THRESHOLD cfg"
    and ys: "1 \<le> consecutiveVoiceFrames (detectState cfg s ys)"
    by (simp_all split: if_splits)
  show ?thesis
  proof (cases ys rule: rev_cases)
    case Nil
    with ys assms(2) show ?thesis by simp
  next
    case (snoc zs a)
    with ys counter_snoc [OF assms(1), of cfg zs a]
    have "snd a > VOICE_DETECTION_THRESHOLD cfg" by (simp split: if_splits)
    with b \<open>xs = ys @ [b]\<close> snoc show ?thesis by simp
  qed
qed

lemma start_position:
  assumes "continuousMonitoring s" "consecutiveVoiceFrames s = 0"
    and "Called_startRecording \<in> set (detect cfg s (pre @ x # post) ! length pre)"
  shows "snd x > VOICE_DETECTION_THRESHOLD cfg
     \<and> (\<exists>p a b. pre = p @ [a, b] \<and> snd a > VOICE_DETECTION_THRESHOLD cfg
            \<and> snd b > VOICE_DETECTION_THRESHOLD cfg)"
proof -
  let ?s' = "(detectState cfg s pre)\<lparr> effects := [] \<rparr>"
  have "detect cfg s (pre @ x # post) ! length pre =
      effects (checkVoiceLevel cfg (fst x) (snd x) ?s')"
    by (simp add: detect_append nth_append length_detect Let_def)
  with assms(3) have st: "Called_startRecording \<in> set (effects (checkVoiceLevel cfg (fst x) (snd x) ?s'))"
    by simp
  have mon: "continuousMonitoring ?s'" and e: "effects ?s' = []"
    using detectState_monitoring [OF assms(1), of cfg pre] by simp_all
  from tick_start_only [OF mon e st]
  have v: "snd x > VOICE_DETECTION_THRESHOLD cfg"
    and c: "2 \<le> consecutiveVoiceFrames (detectState cfg s pre)" by simp_all
  from counter_trailing [OF assms(1,2) c] v show ?thesis by simp
qed

text \<open>
  C2: from a state that is monitoring, not recording and not processing, with the voice
  counter at zero, the detection loop calls \<open>startRecording\<close> in some tick if and only if
  the sample sequence contains three consecutive samples above
  \<open>VOICE_DETECTION_THRESHOLD\<close>; a tick that calls \<open>startRecording\<close> has a sample above
  the threshold and follows two such samples; and in any monitoring, non-recording state a
  single sample at or below the threshold sets the voice counter to zero and leaves
  \<open>voiceStartTime\<close> unset.
\<close>

theorem C2_utterance_start:
  assumes "continuousMonitoring s" "\<not> isRecording s" "\<not> isProcessing s"
    and "consecutiveVoiceFrames s = 0"
  shows "((\<exists>tr \<in> set (detect cfg s xs). Called_startRecording \<in> set tr) \<longleftrightarrow>
          (\<exists>ys a b c zs. xs = ys @ a # b # c # zs
              \<and> snd a > VOICE_DETECTION_THRESHOLD cfg
              \<and> snd b > VOICE_DETECTION_THRESHOLD cfg
              \<and> snd c > VOICE_DETECTION_THRESHOLD cfg))
       \<and> (Called_startRecording \<in> set (detect cfg s (pre @ x # post) ! length pre) \<longrightarrow>
            snd x > VOICE_DETECTION_THRESHOLD cfg
            \<and> (\<exists>p a b. pre = p @ [a, b] \<and> snd a > VOICE_DETECTION_THRESHOLD cfg
                   \<and> snd b > VOICE_DETECTION_THRESHOLD cfg))
       \<and> (continuousMonitoring u \<and> \<not> isRecording u \<and> v \<le> VOICE_DETECTION_THRESHOLD cfg \<longrightarrow>
            consecutiveVoiceFrames (checkVoiceLevel cfg now v u) = 0
            \<and> \<not> truthyTime (voiceStartTime (checkVoiceLevel cfg now v u)))"
proof -
  have "(\<exists>tr \<in> set (detect cfg s xs). Called_startRecording \<in> set tr) =
      confirms (VOICE_DETECTION_THRESHOLD cfg) 0 xs"
    using detect_confirms [OF assms(1-3), of cfg xs] assms(4) by simp
  moreover have "Called_startRecording \<in> set (detect cfg s (pre @ x # post) ! length pre) \<longrightarrow>
            snd x > VOICE_DETECTION_THRESHOLD cfg
            \<and> (\<exists>p a b. pre = p @ [a, b] \<and> snd a > VOICE_DETECTION_THRESHOLD cfg
                   \<and> snd b > VOICE_DETECTION_THRESHOLD cfg)"
    using start_position [OF assms(1,4), of cfg pre x post] by blast
  moreover have "continuousMonitoring u \<and> \<not> isRecording u \<and> v \<le> VOICE_DETECTION_THRESHOLD cfg \<longrightarrow>
            consecutiveVoiceFrames (checkVoiceLevel cfg now v u) = 0
            \<and> \<not> truthyTime (voiceStartTime (checkVoiceLevel cfg now v u))"
    using tick_silence_reset [where s = u and v = v and cfg = cfg and now = now]
    by (simp add: not_less)
  ultimately show ?thesis by (simp add: confirms_0_iff)
qed

lemma silenceFrame_recording:
  "isRecording s \<Longrightarrow>
     (Called_stopRecording \<in> set (effects (silenceFrame cfg s))) =
       (Called_stopRecording \<in> set (effects s)
        \<or> silenceConfirmed cfg (Suc (consecutiveSilenceFrames s)))"
  "isRecording s \<Longrightarrow> \<not> silenceConfirmed cfg (Suc (consecutiveSilenceFrames s)) \<Longrightarrow>
     isRecording (silenceFrame cfg s)
     \<and> consecutiveSilenceFrames (silenceFrame cfg s) = Suc (consecutiveSilenceFrames s)"
  by (simp_all add: silenceFrame_def Let_def stopRecording_fields)

lemma tick_silence_recording:
  assumes "continuousMonitoring s" "isRecording s" "effects s = []"
    and "\<not> v > VOICE_DETECTION_THRESHOLD cfg"
  shows "(Called_stopRecording \<in> set (effects (checkVoiceLevel cfg now v s))) =
       silenceConfirmed cfg (Suc (consecutiveSilenceFrames s))"
    and "\<not> silenceConfirmed cfg (Suc (consecutiveSilenceFrames s)) \<Longrightarrow>
       isRecording (checkVoiceLevel cfg now v s)
       \<and> consecutiveSilenceFrames (checkVoiceLevel cfg now v s) = Suc (consecutiveSilenceFrames s)"
proof -
  define s1 where "s1 = (if shouldInterrupt s \<and> (isProcessing s \<or> ttsSpeaking s)
                  then executeGlobalInterrupt s else s)"
  have s1: "isRecording s1" "consecutiveSilenceFrames s1 = consecutiveSilenceFrames s"
    "Called_stopRecording \<notin> set (effects s1)"
    using assms by (simp_all add: s1_def egi_fields)
  have eq: "checkVoiceLevel cfg now v s = (silenceFrame cfg s1)\<lparr> lastVolume := v \<rparr>"
    using assms by (simp add: checkVoiceLevel_def s1_def)
  show "(Called_stopRecording \<in> set (effects (checkVoiceLevel cfg now v s))) =
       silenceConfirmed cfg (Suc (consecutiveSilenceFrames s))"
    using s1 silenceFrame_recording(1) [of s1 cfg] by (simp add: eq)
  show "isRecording (checkVoiceLevel cfg now v s)
       \<and> consecutiveSilenceFrames (checkVoiceLevel cfg now v s) = Suc (consecutiveSilenceFrames s)"
    if "\<not> silenceConfirmed cfg (Suc (consecutiveSilenceFrames s))"
    using that s1 silenceFrame_recording(2) [of s1 cfg] by (simp add: eq)
qed

lemma detect_silence:
  "continuousMonitoring s \<Longrightarrow> isRecording s \<Longrightarrow>
   \<forall>x \<in> set xs. snd x \<le> VOICE_DETECTION_THRESHOLD cfg \<Longrightarrow>
   VOICE_DETECTION_INTERVAL cfg \<noteq> 0 \<Longrightarrow>
   int (consecutiveSilenceFrames s) + int (length xs) = SILENCE_CONFIRM_FRAMES cfg \<Longrightarrow>
   i < length xs \<Longrightarrow>
   (Called_stopRecording \<in> set (detect cfg s xs ! i)) = (Suc i = length xs)"
proof (induction xs arbitrary: s i)
  case Nil
  then show ?case by simp
next
  case (Cons x xs)
  let ?s0 = "s\<lparr> effects := [] \<rparr>"
  let ?s' = "checkVoiceLevel cfg (fst x) (snd x) ?s0"
  have pre: "continuousMonitoring ?s0" "isRecording ?s0" "effects ?s0 = []"
    "\<not> snd x > VOICE_DETECTION_THRESHOLD cfg"
    using Cons.prems by (simp_all add: not_less)
  have c0: "consecutiveSilenceFrames ?s0 = consecutiveSilenceFrames s" by simp
  have conf: "silenceConfirmed cfg (Suc (consecutiveSilenceFrames s)) = (xs = [])"
    using Cons.prems(4,5) by (cases xs) (auto simp add: silenceConfirmed_def)
  have stop: "(Called_stopRecording \<in> set (effects ?s')) = (xs = [])"
    using tick_silence_recording(1) [OF pre, of "fst x"] conf by (simp add: c0)
  show ?case
  proof (cases i)
    case 0
    with stop show ?thesis by (simp add: Let_def)
  next
    case (Suc j)
    with Cons.prems have j: "j < length xs" by simp
    then have ne: "xs \<noteq> []" by auto
    with conf have nconf: "\<not> silenceConfirmed cfg (Suc (consecutiveSilenceFrames ?s0))"
      by (simp add: c0)
    from tick_silence_recording(2) [OF pre nconf, of "fst x"]
    have rec': "isRecording ?s'"
      and cnt': "consecutiveSilenceFrames ?s' = Suc (consecutiveSilenceFrames s)"
      by (simp_all add: c0)
    have mon': "continuousMonitoring ?s'"
      using tick_counters [OF pre(1), of cfg "fst x" "snd x"] by simp
    have sil: "\<forall>x \<in> set xs. snd x \<le> VOICE_DETECTION_THRESHOLD cfg"
      using Cons.prems(3) by simp
    have len: "int (consecutiveSilenceFrames ?s') + int (length xs) = SILENCE_CONFIRM_FRAMES cfg"
      using Cons.prems(5) cnt' by simp
    have "(Called_stopRecording \<in> set (detect cfg ?s' xs ! j)) = (Suc j = length xs)"
      by (rule Cons.IH [OF mon' rec' sil Cons.prems(4) len j])
    with Suc show ?thesis by (simp add: Let_def)
  qed
qed

theorem C2_witness:
  "\<exists>tr \<in> set (detect CONFIG listeningState
      [(0, 0), (1, 0), (2, 3 / 10), (3, 3 / 10), (4, 3 / 10), (5, 0)]).
      Called_startRecording \<in> set tr"
proof -
  let ?xs = "[(0::int, 0::real), (1, 0), (2, 3 / 10), (3, 3 / 10), (4, 3 / 10), (5, 0)]"
  have ex: "\<exists>ys a b c zs. ?xs = ys @ a # b # c # zs
      \<and> snd a > VOICE_DETECTION_THRESHOLD CONFIG
      \<and> snd b > VOICE_DETECTION_THRESHOLD CONFIG
      \<and> snd c > VOICE_DETECTION_THRESHOLD CONFIG"
    apply (rule exI [of _ "[(0, 0), (1, 0)]"])
    apply (rule exI [of _ "(2, 3 / 10)"])
    apply (rule exI [of _ "(3, 3 / 10)"])
    apply (rule exI [of _ "(4, 3 / 10)"])
    apply (rule exI [of _ "[(5, 0)]"])
    apply (simp add: CONFIG_def)
    done
  have pre: "continuousMonitoring listeningState" "\<not> isRecording listeningState"
    "\<not> isProcessing listeningState" "consecutiveVoiceFrames listeningState = 0"
    by (simp_all add: listeningState_def initialState_def)
  have "(\<exists>tr \<in> set (detect CONFIG listeningState ?xs). Called_startRecording \<in> set tr) =
      (\<exists>ys a b c zs. ?xs = ys @ a # b # c # zs
      \<and> snd a > VOICE_DETECTION_THRESHOLD CONFIG
      \<and> snd b > VOICE_DETECTION_THRESHOLD CONFIG
      \<and> snd c > VOICE_DETECTION_THRESHOLD CONFIG)"
    using C2_utterance_start [OF pre, of CONFIG ?xs] by (rule conjunct1)
  from this ex show ?thesis by (rule iffD2)
qed

text \<open>
  C5, amended: during a recording, a run of samples at or below the threshold that brings
  the silence counter from its current value to \<open>SILENCE_CONFIRM_FRAMES\<close> calls
  \<open>stopRecording\<close> in its last tick and in no earlier one; a sample above the threshold
  resets the counter; \<open>SILENCE_CONFIRM_FRAMES\<close> is the ceiling of
  \<open>QUESTION_DELAY / VOICE_DETECTION_INTERVAL\<close>, which is 1000 ticks of 1 ms for the default
  configuration.
\<close>

theorem C5_silence_termination:
  assumes "continuousMonitoring s" "isRecording s"
    and "VOICE_DETECTION_INTERVAL cfg \<noteq> 0"
    and "\<forall>x \<in> set xs. snd x \<le> VOICE_DETECTION_THRESHOLD cfg"
    and "int (consecutiveSilenceFrames s) + int (length xs) = SILENCE_CONFIRM_FRAMES cfg"
  shows "(\<forall>i < length xs.
            (Called_stopRecording \<in> set (detect cfg s xs ! i)) = (Suc i = length xs))
       \<and> (continuousMonitoring u \<and> v > VOICE_DETECTION_THRESHOLD cfg \<longrightarrow>
            consecutiveSilenceFrames (checkVoiceLevel cfg now v u) = 0)
       \<and> SILENCE_CONFIRM_FRAMES cfg =
            \<lceil>real_of_int (QUESTION_DELAY cfg) / real_of_int (VOICE_DETECTION_INTERVAL cfg)\<rceil>
       \<and> SILENCE_CONFIRM_FRAMES CONFIG = 1000"
proof -
  have a: "\<forall>i < length xs.
      (Called_stopRecording \<in> set (detect cfg s xs ! i)) = (Suc i = length xs)"
    using detect_silence [OF assms(1,2,4,3,5)] by blast
  have b: "continuousMonitoring u \<and> v > VOICE_DETECTION_THRESHOLD cfg \<longrightarrow>
      consecutiveSilenceFrames (checkVoiceLevel cfg now v u) = 0"
    by (simp add: checkVoiceLevel_def Let_def voiceFrame_fields)
  have c: "SILENCE_CONFIRM_FRAMES CONFIG = 1000"
    by (simp add: SILENCE_CONFIRM_FRAMES_def CONFIG_def)
  from a b c show ?thesis by (simp add: SILENCE_CONFIRM_FRAMES_def)
qed

text \<open>
  C5 as stated gives the default as about 2000 ms worth of ticks; the default
  configuration yields 1000 ticks of 1 ms.
\<close>

theorem C5_counterexample:
  "SILENCE_CONFIRM_FRAMES CONFIG = 1000
   \<and> SILENCE_CONFIRM_FRAMES CONFIG * VOICE_DETECTION_INTERVAL CONFIG = 1000
   \<and> SILENCE_CONFIRM_FRAMES CONFIG * VOICE_DETECTION_INTERVAL CONFIG \<noteq> 2000"
  by (simp add: SILENCE_CONFIRM_FRAMES_def CONFIG_def)

theorem C5_witness:
  "Called_stopRecording \<notin> set (detect (CONFIG\<lparr> QUESTION_DELAY := 3 \<rparr>)
        (listeningState\<lparr> isRecording := True \<rparr>) [(0, 0), (1, 1 / 10), (2, 2 / 10)] ! 0)
   \<and> Called_stopRecording \<notin> set (detect (CONFIG\<lparr> QUESTION_DELAY := 3 \<rparr>)
        (listeningState\<lparr> isRecording := True \<rparr>) [(0, 0), (1, 1 / 10), (2, 2 / 10)] ! 1)
   \<and> Called_stopRecording \<in> set (detect (CONFIG\<lparr> QUESTION_DELAY := 3 \<rparr>)
        (listeningState\<lparr> isRecording := True \<rparr>) [(0, 0), (1, 1 / 10), (2, 2 / 10)] ! 2)"
proof -
  let ?cfg = "CONFIG\<lparr> QUESTION_DELAY := 3 \<rparr>"
  let ?s = "listeningState\<lparr> isRecording := True \<rparr>"
  let ?xs = "[(0::int, 0::real), (1, 1 / 10), (2, 2 / 10)]"
  have pre: "continuousMonitoring ?s" "isRecording ?s" "VOICE_DETECTION_INTERVAL ?cfg \<noteq> 0"
    "\<forall>x \<in> set ?xs. snd x \<le> VOICE_DETECTION_THRESHOLD ?cfg"
    "int (consecutiveSilenceFrames ?s) + int (length ?xs) = SILENCE_CONFIRM_FRAMES ?cfg"
    by (simp_all add: listeningState_def initialState_def CONFIG_def SILENCE_CONFIRM_FRAMES_def)
  from C5_silence_termination [OF pre]
  have "\<forall>i < length ?xs. (Called_stopRecording \<in> set (detect ?cfg ?s ?xs ! i)) = (Suc i = length ?xs)"
    by blast
  then have "(Called_stopRecording \<in> set (detect ?cfg ?s ?xs ! 0)) = (Suc 0 = length ?xs)"
    "(Called_stopRecording \<in> set (detect ?cfg ?s ?xs ! 1)) = (Suc 1 = length ?xs)"
    "(Called_stopRecording \<in> set (detect ?cfg ?s ?xs ! 2)) = (Suc 2 = length ?xs)"
    by simp_all
  then show ?thesis by simp
qed

lemma tick_voice_recording:
  assumes "continuousMonitoring s" "isRecording s" "effects s = []"
    and "v > VOICE_DETECTION_THRESHOLD cfg"
  shows "isRecording (checkVoiceLevel cfg now v s)
     \<and> Called_stopRecording \<notin> set (effects (checkVoiceLevel cfg now v s))"
  using assms
  by (simp add: checkVoiceLevel_def Let_def voiceFrame_fields voiceFrame_keeps_recording
      egi_fields)

lemma detect_loud:
  "continuousMonitoring s \<Longrightarrow> isRecording s \<Longrightarrow>
   \<forall>x \<in> set xs. snd x > VOICE_DETECTION_THRESHOLD cfg \<Longrightarrow>
   isRecording (detectState cfg s xs)
   \<and> (\<forall>tr \<in> set (detect cfg s xs). Called_stopRecording \<notin> set tr)"
proof (induction xs arbitrary: s)
  case Nil
  then show ?case by simp
next
  case (Cons x xs)
  let ?s0 = "s\<lparr> effects := [] \<rparr>"
  let ?s' = "checkVoiceLevel cfg (fst x) (snd x) ?s0"
  have pre: "continuousMonitoring ?s0" "isRecording ?s0" "effects ?s0 = []"
    "snd x > VOICE_DETECTION_THRESHOLD cfg"
    using Cons.prems by simp_all
  from tick_voice_recording [OF pre, of "fst x"]
  have rec': "isRecording ?s'" and ns: "Called_stopRecording \<notin> set (effects ?s')"
    by simp_all
  have mon': "continuousMonitoring ?s'"
    using tick_counters [OF pre(1), of cfg "fst x" "snd x"] by simp
  have "\<forall>x \<in> set xs. snd x > VOICE_DETECTION_THRESHOLD cfg"
    using Cons.prems(3) by simp
  from Cons.IH [OF mon' rec' this] ns show ?case by (simp add: Let_def)
qed

lemma startRecording_arms:
  "\<not> isRecording s \<Longrightarrow> mediaRecorder s \<Longrightarrow> \<not> recorderThrows s \<Longrightarrow>
     isRecording (startRecording cfg s) \<and> recordingTimer (startRecording cfg s)
     \<and> SetTimeout RecordingTimer (RECORDING_TIMEOUT cfg) \<in> set (effects (startRecording cfg s))"
  by (simp add: startRecording_def Let_def split: option.splits)

lemma recordingTimeout_stops:
  "isRecording s \<Longrightarrow>
     \<not> isRecording (recordingTimeout s)
     \<and> Called_stopRecording \<in> set (effects (recordingTimeout s))
     \<and> voiceStartTime (recordingTimeout s) = None"
  by (simp add: recordingTimeout_def stopRecording_def Let_def split: option.splits)

text \<open>
  C3 as stated gives the default limit as 30000 ms; \<open>CONFIG.RECORDING_TIMEOUT\<close> is 10000
  and that is the delay of the timer which \<open>startRecording\<close> arms.
\<close>

theorem C3_counterexample:
  "RECORDING_TIMEOUT CONFIG \<noteq> 30000
   \<and> SetTimeout RecordingTimer 10000 \<in> set (effects (startRecording CONFIG listeningState))"
  by (simp add: CONFIG_def startRecording_def listeningState_def initialState_def Let_def
      logEffect_def truthyTime_def)

text \<open>
  C3, amended: the limit is \<open>RECORDING_TIMEOUT\<close>, 10000 ms by default, counted by a timer
  that \<open>startRecording\<close> arms; samples above the threshold never end a recording through
  the detection loop; and when the timer's callback runs during a recording it stops the
  recording, whatever the silence counter is.
\<close>

theorem C3_recording_timeout:
  "RECORDING_TIMEOUT CONFIG = 10000
   \<and> (\<not> isRecording s \<and> mediaRecorder s \<and> \<not> recorderThrows s \<longrightarrow>
        isRecording (startRecording cfg s) \<and> recordingTimer (startRecording cfg s)
        \<and> SetTimeout RecordingTimer (RECORDING_TIMEOUT cfg)
            \<in> set (effects (startRecording cfg s)))
   \<and> (continuousMonitoring s \<and> isRecording s
        \<and> (\<forall>x \<in> set xs. snd x > VOICE_DETECTION_THRESHOLD cfg) \<longrightarrow>
        isRecording (detectState cfg s xs)
        \<and> (\<forall>tr \<in> set (detect cfg s xs). Called_stopRecording \<notin> set tr))
   \<and> (isRecording s \<longrightarrow>
        \<not> isRecording (recordingTimeout s)
        \<and> Called_stopRecording \<in> set (effects (recordingTimeout s))
        \<and> voiceStartTime (recordingTimeout s) = None)"
  using startRecording_arms [of s cfg] detect_loud [of s xs cfg] recordingTimeout_stops [of s]
  by (simp add: CONFIG_def)

theorem C3_witness:
  "\<not> isRecording (recordingTimeout (listeningState\<lparr> isRecording := True \<rparr>))
   \<and> isRecording (startRecording CONFIG listeningState)"
  using C3_recording_timeout [of "listeningState\<lparr> isRecording := True \<rparr>" CONFIG "[]"]
    C3_recording_timeout [of listeningState CONFIG "[]"]
  by (simp add: listeningState_def initialState_def)


section \<open>Properties of the speech player and the coordinator\<close>

lemma trim_blank:
  assumes "\<forall>c \<in> set s. isWhiteSpace c"
  shows "trim s = []"
proof -
  from assms have d: "dropWhile isWhiteSpace s = []" by simp
  show ?thesis unfolding trim_def d by simp
qed

text \<open>
  C10: when the text is \<^verbatim>\<open>null\<close>, empty or consists of white space only, \<open>speak\<close>
  resolves at once and leaves the service exactly as it was: no request, no callback, no
  \<open>stop\<close>, the speaking flag unchanged.
\<close>

theorem C10_speak_blank:
  assumes "text = None \<or> (\<forall>c \<in> set (the text). isWhiteSpace c)"
  shows "speak text t = (Resolved, t)"
  using assms by (auto simp add: speak_def truthyStr_def trim_blank)

theorem C10_witness:
  "speak (Some '' '') ttsReady = (Resolved, ttsReady) \<and> speak None ttsReady = (Resolved, ttsReady)
   \<and> speak (Some []) ttsReady = (Resolved, ttsReady)"
  using C10_speak_blank [of "Some '' ''" ttsReady] C10_speak_blank [of None ttsReady]
    C10_speak_blank [of "Some []" ttsReady]
  by (simp add: isWhiteSpace_def)

text \<open>
  C4 fails on the code: a second \<open>speak\<close> issued while the first call is still waiting
  for its synthesis request finds no current Audio element to stop, and when both requests
  have answered, elements 0 and 1 play at the same time.
\<close>

theorem C4_overlapping_playbacks:
  "playing (snd (speak_fetched 1000 (snd (speak_fetched 1000
      (snd (speak (Some ''B'') (snd (speak (Some ''A'') ttsReady)))))))) = [0, 1]"
  by (simp add: speak_def speak_try_def speak_fetched_def playAudio_def stop_def emit_def
      ttsReady_def newTTSService_def truthyStr_def trim_def isWhiteSpace_def Let_def)

theorem C4_witness:
  "length (playing (snd (speak_fetched 1000 (snd (speak_fetched 1000
      (snd (speak (Some ''B'') (snd (speak (Some ''A'') ttsReady))))))))) = 2"
  using C4_overlapping_playbacks by simp

text \<open>
  When the first element is already playing, the second \<open>speak\<close> does pause it; its
  object URL stays live.
\<close>

lemma speak_while_playing:
  "playing (snd (speak (Some ''B'') (snd (speak_fetched 1000 (snd (speak (Some ''A'') ttsReady)))))) = []
  \<and> liveUrls (snd (speak (Some ''B'') (snd (speak_fetched 1000 (snd (speak (Some ''A'') ttsReady)))))) = [0]"
  by (simp add: speak_def speak_try_def speak_fetched_def playAudio_def stop_def emit_def
      ttsReady_def newTTSService_def truthyStr_def trim_def isWhiteSpace_def Let_def)

text \<open>
  C1, as stated, fails on static/script.js: with an interrupt flag set when
  \<^verbatim>\<open>workflow_finished\<close> is handled, the answer is still spoken.
\<close>

theorem C1_counterexample:
  "interruptLatched (answeringState\<lparr> shouldInterrupt := True \<rparr>)
   \<and> Speak ''Hi'' \<in> set (effects (fst (handleData True finishedHi
        (answeringState\<lparr> shouldInterrupt := True \<rparr>,
         \<lparr> completeAnswer = ''Hi'', messageElement = True \<rparr>))))"
  by (simp add: handleData_def finishedHi_def answeringState_def listeningState_def
      initialState_def interruptLatched_def orElse_def truthyStr_def trim_def
      isWhiteSpace_def Let_def logEffect_def)

lemma handleData_finished:
  assumes "event d = Some ''workflow_finished''" "messageElement l"
    and "trim (orElse (final_answer d) (completeAnswer l)) \<noteq> []" "ttsService s \<noteq> None"
  shows "Speak (orElse (final_answer d) (completeAnswer l))
           \<in> set (effects (fst (handleData ok d (s, l))))
     \<and> \<not> interruptLatched (fst (handleData ok d (s, l)))"
  using assms by (simp add: handleData_def Let_def interruptLatched_def)

lemma handleData_finished_enabled:
  assumes "event d = Some ''workflow_finished''" "messageElement l"
    and "trim (orElse (final_answer d) (completeAnswer l)) \<noteq> []" "ttsService s \<noteq> None"
  shows "map_option enabled (ttsService (fst (handleData ok d (s, l)))) = Some True"
proof -
  from assms(4) obtain t where t: "ttsService s = Some t" by auto
  have "enabled (setEnabled True t)" by (simp add: setEnabled_def Let_def)
  with assms(1-3) t show ?thesis by (simp add: handleData_def Let_def)
qed

lemma handleData_v4_latched:
  "event d = Some ''workflow_finished'' \<Longrightarrow> interruptLatched s \<Longrightarrow>
     handleData_v4 ok d (s, l) = (True, s, l)"
  by (simp add: handleData_v4_def Let_def)

lemma handleData_v4_speaks:
  assumes "event d = Some ''workflow_finished''" "\<not> interruptLatched s" "messageElement l"
    and "trim (orElse (final_answer d) (completeAnswer l)) \<noteq> []" "ttsService s \<noteq> None"
  shows "Speak (orElse (final_answer d) (completeAnswer l))
           \<in> set (effects (fst (snd (handleData_v4 ok d (s, l)))))"
  using assms by (simp add: handleData_v4_def Let_def interruptLatched_def)

lemma readLoop_v4_latched:
  "interruptLatched s \<Longrightarrow> Speak a \<in> set (effects (fst (readLoop_v4 parse ok chunks (s, l))))
     \<Longrightarrow> Speak a \<in> set (effects s)"
  by (cases chunks) (auto split: if_splits)

text \<open>
  C1, amended: in static/script.js the handler of \<^verbatim>\<open>workflow_finished\<close>, given a message
  element, a non-blank answer and a speech service, clears both interrupt flags, enables
  the speech service and speaks the answer, whether or not a flag was set. The earlier variant
  (unnamed/part\_004) skips the answer: with a flag set it leaves the line loop without any
  effect, its read loop then speaks nothing more, and without a flag it speaks the answer.
\<close>

theorem C1_final_answer_speech:
  "(event d = Some ''workflow_finished'' \<and> messageElement l
      \<and> trim (orElse (final_answer d) (completeAnswer l)) \<noteq> [] \<and> ttsService s \<noteq> None \<longrightarrow>
      Speak (orElse (final_answer d) (completeAnswer l))
         \<in> set (effects (fst (handleData ok d (s, l))))
      \<and> \<not> isInterrupted (fst (handleData ok d (s, l)))
      \<and> \<not> shouldInterrupt (fst (handleData ok d (s, l)))
      \<and> \<not> interruptLatched (fst (handleData ok d (s, l)))
      \<and> map_option enabled (ttsService (fst (handleData ok d (s, l)))) = Some True)
   \<and> (event d = Some ''workflow_finished'' \<and> interruptLatched s \<longrightarrow>
        handleData_v4 ok d (s, l) = (True, s, l))
   \<and> (interruptLatched s \<longrightarrow>
        (\<forall>a. Speak a \<in> set (effects (fst (readLoop_v4 parse ok chunks (s, l)))) \<longrightarrow>
             Speak a \<in> set (effects s)))
   \<and> (event d = Some ''workflow_finished'' \<and> \<not> interruptLatched s \<and> messageElement l
      \<and> trim (orElse (final_answer d) (completeAnswer l)) \<noteq> [] \<and> ttsService s \<noteq> None \<longrightarrow>
      Speak (orElse (final_answer d) (completeAnswer l))
         \<in> set (effects (fst (snd (handleData_v4 ok d (s, l))))))"
  using handleData_finished [of d l s ok] handleData_finished_enabled [of d l s ok]
    handleData_v4_latched [of d s ok l]
    handleData_v4_speaks [of d s l ok] readLoop_v4_latched [of s _ parse ok chunks l]
  unfolding interruptLatched_def
  by blast


theorem C1_witness:
  "Speak ''Hi'' \<in> set (effects (fst (handleData True finishedHi
        (answeringState, \<lparr> completeAnswer = ''Hi'', messageElement = True \<rparr>))))
   \<and> map_option enabled (ttsService (fst (handleData True finishedHi
        (answeringState\<lparr> ttsService := Some (ttsReady\<lparr> enabled := False \<rparr>) \<rparr>,
         \<lparr> completeAnswer = ''Hi'', messageElement = True \<rparr>)))) = Some True
   \<and> handleData_v4 True finishedHi
        (answeringState\<lparr> isInterrupted := True \<rparr>,
         \<lparr> completeAnswer = ''Hi'', messageElement = True \<rparr>)
      = (True, answeringState\<lparr> isInterrupted := True \<rparr>,
         \<lparr> completeAnswer = ''Hi'', messageElement = True \<rparr>)"
  using C1_final_answer_speech [where d = finishedHi and ok = True and s = answeringState
      and l = "\<lparr> completeAnswer = ''Hi'', messageElement = True \<rparr>"
      and parse = Map.empty and chunks = "[]"]
    C1_final_answer_speech [where d = finishedHi and ok = True
      and s = "answeringState\<lparr> ttsService := Some (ttsReady\<lparr> enabled := False \<rparr>) \<rparr>"
      and l = "\<lparr> completeAnswer = ''Hi'', messageElement = True \<rparr>"
      and parse = Map.empty and chunks = "[]"]
    C1_final_answer_speech [where d = finishedHi and ok = True
      and s = "answeringState\<lparr> isInterrupted := True \<rparr>"
      and l = "\<lparr> completeAnswer = ''Hi'', messageElement = True \<rparr>"
      and parse = Map.empty and chunks = "[]"]
  by (simp add: finishedHi_def answeringState_def listeningState_def initialState_def
      interruptLatched_def orElse_def truthyStr_def trim_def isWhiteSpace_def)

lemma chatLines_skip:
  assumes "prefix ''data: '' line"
    and "trim (drop 6 line) = [] \<or> trim (drop 6 line) = ''[DONE]''"
  shows "chatLines parse (pre @ line # rest) gl = chatLines parse (pre @ rest) gl"
proof (induction pre arbitrary: gl)
  case Nil
  from assms show ?case by (simp add: Let_def)
next
  case (Cons p pre)
  show ?case
    by (simp add: Cons.IH Let_def split: option.splits prod.splits bool.splits)
qed

lemma handleLines_skip:
  assumes "prefix ''data: '' line" and "parse (drop 6 line) = None"
  shows "handleLines parse ok (pre @ line # rest) sl = handleLines parse ok (pre @ rest) sl"
proof (induction pre arbitrary: sl)
  case Nil
  from assms show ?case by (simp add: handleLine_def)
next
  case (Cons p pre)
  show ?case by (simp add: Cons.IH)
qed

text \<open>
  C8, as stated, fails on both handlers: the line after \<^verbatim>\<open>data: [DONE]\<close> is still parsed
  and acted upon.
\<close>

theorem C8_counterexample:
  "chatLog (fst (chatLines (map_of [(''{\"event\":\"message\",\"complete_answer\":\"Hi\"}'', messageHi)])
      [''data: [DONE]'', ''data: {\"event\":\"message\",\"complete_answer\":\"Hi\"}''] chatStart))
     = [AddAssistantMessage, UpdateContent ''Hi'' False]
   \<and> effects (fst (handleLines (map_of [(''{\"event\":\"message\",\"complete_answer\":\"Hi\"}'', messageHi)]) True
      [''data: [DONE]'', ''data: {\"event\":\"message\",\"complete_answer\":\"Hi\"}'']
      (answeringState, \<lparr> completeAnswer = [], messageElement = True \<rparr>)))
     = [UpdateMessage ''Hi'']"
  by (simp add: chatStart_def chatData_def chatEmit_def messageHi_def trim_def isWhiteSpace_def
      orElse_def truthyStr_def Let_def handleLine_def handleData_def answeringState_def
      listeningState_def initialState_def logEffect_def)

text \<open>
  C8, amended: on the text chat page a \<^verbatim>\<open>data: \<close> line whose payload is blank or
  \<^verbatim>\<open>[DONE]\<close> is skipped without being parsed: the lines before and after it are
  handled as if it were not there. In static/script.js the same holds for a payload that
  \<^verbatim>\<open>JSON.parse\<close> rejects, as it does these two.
\<close>

theorem C8_done_line_skipped:
  "(prefix ''data: '' line \<and> (trim (drop 6 line) = [] \<or> trim (drop 6 line) = ''[DONE]'') \<longrightarrow>
      chatLines parse (pre @ line # rest) gl = chatLines parse (pre @ rest) gl)
   \<and> (prefix ''data: '' line \<and> parse (drop 6 line) = None \<longrightarrow>
      handleLines parse ok (pre @ line # rest) sl = handleLines parse ok (pre @ rest) sl)"
  using chatLines_skip [of line parse pre rest gl] handleLines_skip [of line parse ok pre rest sl]
  by blast

theorem C8_witness:
  "chatLines Map.empty ([''data: x''] @ ''data: [DONE]'' # [''data:   '']) chatStart = chatStart
   \<and> handleLines Map.empty True ([''data: x''] @ ''data: [DONE]'' # [''data:   ''])
        (answeringState, \<lparr> completeAnswer = [], messageElement = False \<rparr>)
      = (answeringState, \<lparr> completeAnswer = [], messageElement = False \<rparr>)"
  using C8_done_line_skipped [where line = "''data: [DONE]''" and parse = Map.empty
      and pre = "[''data: x'']"
      and rest = "[''data:   '']" and gl = chatStart and ok = True
      and sl = "(answeringState, \<lparr> completeAnswer = [], messageElement = False \<rparr>)"]
  by (simp add: trim_def isWhiteSpace_def handleLine_def Let_def)

lemma set_effects_egi:
  "\<exists>new. effects (executeGlobalInterrupt s) = effects s @ new
     \<and> set new \<subseteq> {ReaderCancel, UpdateStatus Listening, SetTimeout InterruptReset 100}"
  by (simp add: executeGlobalInterrupt_def Let_def)

lemma finally_effects:
  "\<not> isProcessing (processAudio_finally s)
   \<and> (\<exists>new. effects (processAudio_finally s) = effects s @ new
     \<and> set new \<subseteq> {SetTimeout StatusReset 1000, ReaderCancel, UpdateStatus Listening,
                    SetTimeout InterruptReset 100})"
proof -
  let ?s1 = "s\<lparr> isProcessing := False \<rparr>"
  from set_effects_egi [of ?s1] obtain new where
    "effects (executeGlobalInterrupt ?s1) = effects s @ new"
    "set new \<subseteq> {ReaderCancel, UpdateStatus Listening, SetTimeout InterruptReset 100}"
    by auto
  then show ?thesis
    by (auto simp add: processAudio_finally_def Let_def egi_fields)
qed

text \<open>
  C9: when the transcription is absent, empty or white space only, \<open>processAudio\<close>
  returns without waiting for a chat request, the processing flag is cleared, and
  everything it does is among: status updates to ready and listening, status timers, and
  the steps of \<open>executeGlobalInterrupt\<close>. In particular there is no chat request, no
  user message and no error display.
\<close>

theorem C9_blank_transcript:
  assumes "t = None \<or> (\<forall>c \<in> set (the t). isWhiteSpace c)"
  shows "\<not> fst (processAudio_transcribed (Body t) s)
     \<and> \<not> isProcessing (snd (processAudio_transcribed (Body t) s))
     \<and> (\<exists>new. effects (snd (processAudio_transcribed (Body t) s)) = effects s @ new
          \<and> set new \<subseteq> {UpdateStatus Ready, SetTimeout StatusReset 2000,
                SetTimeout StatusReset 1000, ReaderCancel, UpdateStatus Listening,
                SetTimeout InterruptReset 100})"
proof -
  have blank: "trim (orElse t []) = []"
  proof (cases t)
    case None
    then show ?thesis by (simp add: orElse_def truthyStr_def trim_def)
  next
    case (Some x)
    with assms have "\<forall>c \<in> set x. isWhiteSpace c" by simp
    then have "trim x = []" by (rule trim_blank)
    with Some show ?thesis by (simp add: orElse_def truthyStr_def trim_def)
  qed
  let ?s2 = "logEffect (SetTimeout StatusReset 2000) (logEffect (UpdateStatus Ready) s)"
  have eq: "processAudio_transcribed (Body t) s = (False, processAudio_finally ?s2)"
    using blank by (simp add: processAudio_transcribed_def callSTTAPI_result_def Let_def)
  from finally_effects [of ?s2] obtain new where
    "\<not> isProcessing (processAudio_finally ?s2)"
    "effects (processAudio_finally ?s2) = effects ?s2 @ new"
    "set new \<subseteq> {SetTimeout StatusReset 1000, ReaderCancel, UpdateStatus Listening,
                    SetTimeout InterruptReset 100}"
    by auto
  then have "\<not> isProcessing (processAudio_finally ?s2)"
    "effects (processAudio_finally ?s2) =
       effects s @ ([UpdateStatus Ready, SetTimeout StatusReset 2000] @ new)"
    "set ([UpdateStatus Ready, SetTimeout StatusReset 2000] @ new) \<subseteq>
      {UpdateStatus Ready, SetTimeout StatusReset 2000,
                SetTimeout StatusReset 1000, ReaderCancel, UpdateStatus Listening,
                SetTimeout InterruptReset 100}"
    by auto
  then show ?thesis unfolding eq by (metis fst_conv snd_conv)
qed

theorem C9_witness:
  "\<not> fst (processAudio_transcribed (Body (Some ''  '')) answeringState)
   \<and> \<not> isProcessing (snd (processAudio_transcribed (Body (Some ''  '')) answeringState))"
  using C9_blank_transcript [of "Some ''  ''" answeringState]
  by (simp add: isWhiteSpace_def)

section \<open>Properties of transcription\<close>

text \<open>
  C7, as stated, fails on static/script.js: a clip one byte over 25 MB is sent to the
  transcription endpoint.
\<close>

theorem C7_counterexample:
  "maxPayload < 26214401
   \<and> fst (processAudio 26214401 listeningState)
   \<and> FetchTranscribe 26214401 \<in> set (effects (snd (processAudio 26214401 listeningState)))"
  by (simp add: maxPayload_def processAudio_def callSTTAPI_def Let_def interruptLatched_def
      listeningState_def initialState_def logEffect_def)

lemma attempt_too_large:
  "blobSize > maxPayload \<Longrightarrow>
     attemptTranscription net blobSize rc k w = (Inl PayloadTooLarge, k, w)"
  by (subst attemptTranscription.simps)
     (simp add: attemptOnce_def maxPayload_def isAbortError_def retryable_def Let_def)

lemma attempt_abort:
  "0 < blobSize \<Longrightarrow> blobSize \<le> maxPayload \<Longrightarrow> net k = Rejects ''AbortError'' m \<Longrightarrow>
     attemptTranscription net blobSize rc k w = (Inl Timeout, Suc k, w)"
  by (subst attemptTranscription.simps)
     (simp add: attemptOnce_def isAbortError_def Let_def)

lemma attempt_bound:
  "\<exists>j. j \<le> maxRetries - rc
     \<and> snd (snd (attemptTranscription net n rc k w))
         = w @ map (\<lambda>i. 1000 * int i) [Suc rc ..< Suc rc + j]
     \<and> fst (snd (attemptTranscription net n rc k w)) \<le> k + j + 1"
proof (induction net n rc k w rule: attemptTranscription.induct)
  case (1 net blobSize retryCount n waits)
  define r where "r = attemptOnce blobSize (net n)"
  define n' where "n' = (if snd r then Suc n else n)"
  have n': "n' \<le> Suc n" by (simp add: n'_def)
  show ?case
  proof (cases "\<exists>e. fst r = Inl e \<and> \<not> isAbortError e \<and> retryCount < maxRetries \<and> retryable e")
    case True
    then obtain e where e: "fst r = Inl e" "\<not> isAbortError e"
      "retryCount < maxRetries \<and> retryable e" by blast
    let ?w = "waits @ [1000 * int (Suc retryCount)]"
    have eq: "attemptTranscription net blobSize retryCount n waits =
        attemptTranscription net blobSize (Suc retryCount) n' ?w"
      using e
      by (subst attemptTranscription.simps)
         (simp add: r_def [symmetric] n'_def Let_def)
    from "1.IH" [OF r_def n'_def e] obtain j where j:
      "j \<le> maxRetries - Suc retryCount"
      "snd (snd (attemptTranscription net blobSize (Suc retryCount) n' ?w))
         = ?w @ map (\<lambda>i. 1000 * int i) [Suc (Suc retryCount) ..< Suc (Suc retryCount) + j]"
      "fst (snd (attemptTranscription net blobSize (Suc retryCount) n' ?w)) \<le> n' + j + 1"
      by blast
    have "Suc j \<le> maxRetries - retryCount" using j(1) e(3) by arith
    moreover have "snd (snd (attemptTranscription net blobSize retryCount n waits))
         = waits @ map (\<lambda>i. 1000 * int i) [Suc retryCount ..< Suc retryCount + Suc j]"
      unfolding eq j(2) by (simp add: upt_rec [of "Suc retryCount"])
    moreover have "fst (snd (attemptTranscription net blobSize retryCount n waits))
        \<le> n + Suc j + 1"
      unfolding eq using j(3) n' by simp
    ultimately show ?thesis by blast
  next
    case False
    have "snd (snd (attemptTranscription net blobSize retryCount n waits)) = waits
        \<and> fst (snd (attemptTranscription net blobSize retryCount n waits)) = n'"
      using False
      by (subst (1 2) attemptTranscription.simps)
         (auto simp add: r_def [symmetric] n'_def Let_def split: sum.splits)
    with n' have "0 \<le> maxRetries - retryCount
       \<and> snd (snd (attemptTranscription net blobSize retryCount n waits))
         = waits @ map (\<lambda>i. 1000 * int i) [Suc retryCount ..< Suc retryCount + 0]
       \<and> fst (snd (attemptTranscription net blobSize retryCount n waits)) \<le> n + 0 + 1"
      by simp
    then show ?thesis by blast
  qed
qed


lemma upt_4: "[Suc 0 ..< Suc 0 + j] = take j [1, 2, 3] \<or> 3 < j"
proof -
  consider "j = 0" | "j = 1" | "j = 2" | "j = 3" | "3 < j" by arith
  then show ?thesis
    by cases (simp_all add: upt_rec numeral_2_eq_2 numeral_3_eq_3)
qed

lemma attempt_retries:
  assumes "0 < blobSize" "blobSize \<le> maxPayload" "\<forall>k. net k = Rejects name msg"
    and "name \<noteq> ''AbortError''" "transientText msg"
  shows "attemptTranscription net blobSize 0 0 [] =
     (Inl (FetchFailed name msg), 4, [1000, 2000, 3000])"
proof -
  have once: "attemptOnce blobSize (net k) = (Inl (FetchFailed name msg), True)" for k
    using assms(1-3) by (simp add: attemptOnce_def)
  have re: "\<not> isAbortError (FetchFailed name msg)" "retryable (FetchFailed name msg)"
    using assms(4,5) by (simp_all add: isAbortError_def retryable_def)
  have step: "rc < maxRetries \<Longrightarrow> attemptTranscription net blobSize rc k w =
      attemptTranscription net blobSize (Suc rc) (Suc k) (w @ [1000 * int (Suc rc)])" for rc k w
    by (subst attemptTranscription.simps) (simp add: once re Let_def)
  have last: "attemptTranscription net blobSize 3 k w = (Inl (FetchFailed name msg), Suc k, w)"
    for k w
    by (subst attemptTranscription.simps) (simp add: once re Let_def maxRetries_def)
  have "attemptTranscription net blobSize 0 0 [] =
      attemptTranscription net blobSize (Suc (Suc (Suc 0))) (Suc (Suc (Suc 0)))
        ((([] @ [1000 * int (Suc 0)]) @ [1000 * int (Suc (Suc 0))]) @ [1000 * int (Suc (Suc (Suc 0)))])"
    by (simp add: step maxRetries_def)
  also have "\<dots> = (Inl (FetchFailed name msg), 4, [1000, 2000, 3000])"
    using last [of "Suc (Suc (Suc 0))"] by (simp add: numeral_3_eq_3)
  finally show ?thesis .
qed

text \<open>
  C7, amended: \<open>callSTTAPI\<close> of static/script.js sends exactly one request for a clip of
  any size. The text chat page's \<open>attemptTranscription\<close> rejects a clip over 25 MB without
  a request, sends at most four requests, waits 1000, 2000, 3000 ms between them, does
  not retry a request that timed out, and gives up after the fourth request when every
  request fails with a message that counts as transient.
\<close>

theorem C7_transcription_policy:
  "effects (callSTTAPI blobSize s) = effects s @ [FetchTranscribe blobSize]
   \<and> (blobSize > maxPayload \<longrightarrow>
        attemptTranscription net blobSize rc k w = (Inl PayloadTooLarge, k, w))
   \<and> fst (snd (attemptTranscription net blobSize 0 0 [])) \<le> 4
   \<and> prefix (snd (snd (attemptTranscription net blobSize 0 0 []))) [1000, 2000, 3000]
   \<and> (0 < blobSize \<and> blobSize \<le> maxPayload \<and> net 0 = Rejects ''AbortError'' m \<longrightarrow>
        attemptTranscription net blobSize 0 0 [] = (Inl Timeout, 1, []))
   \<and> (0 < blobSize \<and> blobSize \<le> maxPayload \<and> (\<forall>i. net i = Rejects name msg)
        \<and> name \<noteq> ''AbortError'' \<and> transientText msg \<longrightarrow>
        attemptTranscription net blobSize 0 0 [] =
          (Inl (FetchFailed name msg), 4, [1000, 2000, 3000]))"
proof -
  from attempt_bound [of 0 net blobSize 0 "[]"] obtain j where j:
    "j \<le> maxRetries"
    "snd (snd (attemptTranscription net blobSize 0 0 []))
       = map (\<lambda>i. 1000 * int i) [Suc 0 ..< Suc 0 + j]"
    "fst (snd (attemptTranscription net blobSize 0 0 [])) \<le> j + 1"
    by auto
  from j(1) have j3: "j \<le> 3" by (simp add: maxRetries_def)
  with upt_4 [of j] have "[Suc 0 ..< Suc 0 + j] = take j [1, 2, 3]" by auto
  then have "snd (snd (attemptTranscription net blobSize 0 0 []))
      = take j [1000, 2000, 3000]"
    unfolding j(2) by (simp add: take_map [symmetric])
  then have p: "prefix (snd (snd (attemptTranscription net blobSize 0 0 []))) [1000, 2000, 3000]"
    by (simp add: take_is_prefix)
  have c: "fst (snd (attemptTranscription net blobSize 0 0 [])) \<le> 4"
    using j(3) j3 by simp
  show ?thesis
    using p c attempt_too_large [of blobSize net rc k w] attempt_abort [of blobSize net 0 m 0 "[]"]
      attempt_retries [of blobSize net name msg]
    by (simp add: callSTTAPI_def)
qed

theorem C7_witness:
  "attemptTranscription (\<lambda>k. Rejects ''TypeError'' ''Failed to fetch'') 26214401 0 0 []
     = (Inl PayloadTooLarge, 0, [])
   \<and> attemptTranscription (\<lambda>k. Rejects ''AbortError'' ''aborted'') 1000 0 0 []
     = (Inl Timeout, 1, [])"
  using C7_transcription_policy [where blobSize = 26214401 and rc = 0 and k = 0 and w = "[]"
      and s = listeningState and net = "\<lambda>k. Rejects ''TypeError'' ''Failed to fetch''"
      and m = "[]" and name = "[]" and msg = "[]"]
    C7_transcription_policy [where blobSize = 1000 and m = "''aborted''"
      and s = listeningState and rc = 0 and k = 0 and w = "[]" and name = "[]" and msg = "[]"
      and net = "\<lambda>k. Rejects ''AbortError'' ''aborted''"]
  by (simp add: maxPayload_def)


end
